theory Spec2Isabelle
  imports Complex_Main "HOL-Library.Log_Nat"
begin

section \<open>CleanSheet: the job controller (app.py) and the sanitization worker (worker.py)\<close>

text \<open>
  The two Python programs are embedded as pure functions. Everything the code obtains from
  outside (the reputation service, the Docker daemon, the PDF libraries) is an explicit
  argument that says what the call returned or that it raised; the filesystem is a map from
  paths to file contents that the functions take and return.
\<close>

subsection \<open>Exceptions and text\<close>

text \<open>A call either raises (the text is \<open>str(e)\<close>) or returns a value.\<close>

datatype 'a outcome = Raised string | Returned 'a

text \<open>\<open>str(n)\<close> of a Python int, as the f-strings of the source format it.\<close>

fun str_nat :: "nat \<Rightarrow> string" where
  "str_nat n =
     (if n < 10 then [''0123456789'' ! n]
      else str_nat (n div 10) @ [''0123456789'' ! (n mod 10)])"

declare str_nat.simps [simp del]

definition str_int :: "int \<Rightarrow> string" where
  "str_int i = (if i < 0 then ''-'' @ str_nat (nat (- i)) else str_nat (nat i))"

subsection \<open>app.py: the reputation client\<close>

text \<open>
  \<open>last_analysis_stats\<close> is a JSON object read with \<open>stats.get(key, 0)\<close>; the counts are
  Python ints.
\<close>

type_synonym stats = "string \<rightharpoonup> int"

definition stats_get :: "stats \<Rightarrow> string \<Rightarrow> int \<Rightarrow> int" where
  "stats_get stats key dflt = (case stats key of None \<Rightarrow> dflt | Some v \<Rightarrow> v)"

text \<open>
  A response of \<open>requests\<close>: the status code and what reading the needed fields of
  \<open>response.json()\<close> gives (it raises when the body is not JSON or a key is missing).
\<close>

record 'a http_response =
  status_code :: int
  json :: "'a outcome"

text \<open>
  What the reputation service answers for one scanned file: the digest computation
  (\<open>get_file_hash\<close> opens the file, so it can raise), the hash lookup, the upload (its body
  carries the analysis id) and the successive polls of the analysis (its body carries the
  status and the stats). A transport error is a call that raised.
\<close>

record vt_env =
  file_hash :: "string outcome"
  lookup :: "stats http_response outcome"
  upload :: "string http_response outcome"
  polls :: "nat \<Rightarrow> (string \<times> stats) http_response outcome"

text \<open>
  The polling loop \<open>for _ in range(12)\<close> (lines 90-114). \<open>None\<close>: the loop ran out without
  a return; \<open>Some (Raised e)\<close>: a call raised; \<open>Some (Returned r)\<close>: the loop returned \<open>r\<close>.
\<close>

fun poll_analysis ::
  "(nat \<Rightarrow> (string \<times> stats) http_response outcome) \<Rightarrow> nat \<Rightarrow> nat \<Rightarrow> (bool \<times> string) outcome option"
where
  "poll_analysis ps i 0 = None"
| "poll_analysis ps i (Suc n) =
     (case ps i of
        Raised e \<Rightarrow> Some (Raised e)
      | Returned analysis_response \<Rightarrow>
          if status_code analysis_response = 200 then
            (case json analysis_response of
               Raised e \<Rightarrow> Some (Raised e)
             | Returned (status, stats) \<Rightarrow>
                 if status = ''completed'' then
                   (let malicious = stats_get stats ''malicious'' 0;
                        suspicious = stats_get stats ''suspicious'' 0
                    in if malicious > 0 then
                         Some (Returned (False, ''THREAT DETECTED: '' @ str_int malicious
                                 @ '' engines flagged as malicious''))
                       else if suspicious > 3 then
                         Some (Returned (False, ''SUSPICIOUS: '' @ str_int suspicious
                                 @ '' engines flagged as suspicious''))
                       else
                         Some (Returned (True, ''Clean (0/''
                                 @ str_int (stats_get stats ''harmless'' 0
                                            + stats_get stats ''undetected'' 0)
                                 @ '' engines)'')))
                 else poll_analysis ps (Suc i) n)
          else poll_analysis ps (Suc i) n)"

text \<open>\<open>scan_with_virustotal\<close> returns the pair \<open>(is_clean, scan_message)\<close>.\<close>

definition scan_error :: "string \<Rightarrow> bool \<times> string" where
  "scan_error e = (True, ''Scan error - proceeding: '' @ e)"

definition scan_with_virustotal :: "string \<Rightarrow> vt_env \<Rightarrow> bool \<times> string" where
  "scan_with_virustotal api_key vt =
     (if api_key = [] then (True, ''No API key configured'')
      else case file_hash vt of
        Raised e \<Rightarrow> scan_error e
      | Returned h \<Rightarrow>
         (case lookup vt of
            Raised e \<Rightarrow> scan_error e
          | Returned response \<Rightarrow>
              if status_code response = 200 then
                (case json response of
                   Raised e \<Rightarrow> scan_error e
                 | Returned stats \<Rightarrow>
                     (let malicious = stats_get stats ''malicious'' 0;
                          suspicious = stats_get stats ''suspicious'' 0
                      in if malicious > 0 then
                           (False, ''THREAT DETECTED: '' @ str_int malicious
                              @ '' engines flagged as malicious'')
                         else if suspicious > 3 then
                           (False, ''SUSPICIOUS: '' @ str_int suspicious
                              @ '' engines flagged as suspicious'')
                         else
                           (True, ''Clean (0/''
                              @ str_int (stats_get stats ''harmless'' 0
                                         + stats_get stats ''undetected'' 0)
                              @ '' engines)'')))
              else if status_code response = 404 then
                (case upload vt of
                   Raised e \<Rightarrow> scan_error e
                 | Returned upload_response \<Rightarrow>
                     if status_code upload_response = 200 \<or> status_code upload_response = 201 then
                       (case json upload_response of
                          Raised e \<Rightarrow> scan_error e
                        | Returned analysis_id \<Rightarrow>
                           (case poll_analysis (polls vt) 0 12 of
                              Some (Raised e) \<Rightarrow> scan_error e
                            | Some (Returned r) \<Rightarrow> r
                            | None \<Rightarrow> (True, ''Analysis timeout - proceeding'')))
                     else (True, ''Upload failed - proceeding''))
              else (True, ''API error - proceeding'')))"

subsection \<open>app.py: staged files and validation of the upload\<close>

text \<open>
  The controller only looks at whether a staged file exists and at its size, so the
  filesystem maps a path to the size in bytes of the file there.
\<close>

type_synonym path = string
type_synonym files = "path \<rightharpoonup> nat"

definition UPLOAD_FOLDER :: path where
  "UPLOAD_FOLDER = ''/app/uploads''"

definition OUTPUT_FOLDER :: path where
  "OUTPUT_FOLDER = ''/app/output''"

definition ALLOWED_EXTENSIONS :: "string set" where
  "ALLOWED_EXTENSIONS =
     {''pdf'', ''doc'', ''docx'', ''xls'', ''xlsx'', ''ppt'', ''pptx'', ''txt'', ''rtf'', ''odt'',
      ''jpg'', ''jpeg'', ''png''}"

definition MAX_FILE_SIZE :: nat where
  "MAX_FILE_SIZE = 100 * 1024 * 1024"

text \<open>
  \<open>s.rsplit('.', 1)\<close> for a string that contains a dot: the part before the last dot and
  the part after it. Without a dot the result is \<open>[s]\<close>, whose element 0 is \<open>s\<close>.
\<close>

definition rsplit_before :: "string \<Rightarrow> string" where
  "rsplit_before s =
     (if CHR ''.'' \<in> set s then rev (tl (dropWhile (\<lambda>c. c \<noteq> CHR ''.'') (rev s))) else s)"

definition rsplit_after :: "string \<Rightarrow> string" where
  "rsplit_after s = rev (takeWhile (\<lambda>c. c \<noteq> CHR ''.'') (rev s))"

text \<open>\<open>str.lower()\<close> on the ASCII letters (a \<open>char\<close> is a byte).\<close>

definition lower_char :: "char \<Rightarrow> char" where
  "lower_char c =
     (case map_of (zip ''ABCDEFGHIJKLMNOPQRSTUVWXYZ'' ''abcdefghijklmnopqrstuvwxyz'') c of
        None \<Rightarrow> c
      | Some l \<Rightarrow> l)"

definition allowed_file :: "string \<Rightarrow> bool" where
  "allowed_file filename \<longleftrightarrow>
     CHR ''.'' \<in> set filename \<and> map lower_char (rsplit_after filename) \<in> ALLOWED_EXTENSIONS"

subsection \<open>app.py: the sandbox supervisor\<close>

text \<open>
  What the Docker daemon does for one job. \<open>worker_writes\<close> is the size of the file the
  worker leaves at the output path (\<open>None\<close>: it leaves none).

  \<open>client.containers.run(..., detach=True)\<close> of docker-py creates the container and then
  starts it. It returns the handle of the running container (\<open>Launched\<close>), or it raises
  before any container exists (\<open>LaunchRaised\<close>: the image is missing, the name is taken,
  the daemon refuses the configuration), or it raises after the container has been created,
  when the start fails (\<open>StartRaised\<close>): then the container exists under its name and the
  supervisor has received no handle.
\<close>

datatype image_lookup = ImageFound | ImageNotFound | ImageLookupRaised string

datatype launch = Launched | LaunchRaised string | StartRaised string

record docker_env =
  connect :: "unit outcome"
  images_get :: image_lookup
  images_build :: "unit outcome"
  containers_run :: launch
  worker_writes :: "nat option"
  container_wait :: "int outcome"
  container_logs :: "string outcome"
  container_remove :: "unit outcome"

text \<open>
  The calls the supervisor makes on the daemon, in order. \<open>Created\<close>: \<open>containers.run\<close> has
  created the instance of that name; \<open>RunRaised\<close>: \<open>containers.run\<close> has raised.
\<close>

datatype docker_event =
    ImagesGet
  | ImagesBuild
  | RunRaised string
  | Created string
  | Wait string
  | Logs string
  | Remove string

text \<open>The environment of one request.\<close>

record app_env =
  api_key :: string
  uuid4 :: string
  secure_filename :: "string \<Rightarrow> string"
  file_save :: "unit outcome"
  vt :: "path \<Rightarrow> vt_env"
  docker :: docker_env

text \<open>
  Lines 190-275 of \<open>sanitize_in_container\<close>, inside the \<open>try\<close>: the result of the body
  (a return value or an exception), the variable \<open>container\<close> when the body is left, the
  filesystem and the calls made.
\<close>

definition run_worker ::
  "app_env \<Rightarrow> path \<Rightarrow> path \<Rightarrow> string \<Rightarrow> files \<Rightarrow>
     bool outcome \<times> string option \<times> files \<times> docker_event list"
where
  "run_worker env input_path output_path job_id fs =
     (let d = docker env; name = ''cleansheet-worker-'' @ job_id in
      case containers_run d of
        LaunchRaised e \<Rightarrow> (Raised e, None, fs, [RunRaised name])
      | StartRaised e \<Rightarrow> (Raised e, None, fs, [Created name, RunRaised name])
      | Launched \<Rightarrow>
         (let fs1 = (case worker_writes d of None \<Rightarrow> fs | Some n \<Rightarrow> fs(output_path \<mapsto> n)) in
          case container_wait d of
            Raised e \<Rightarrow> (Raised e, Some name, fs1, [Created name, Wait name])
          | Returned exit_status \<Rightarrow>
             (case container_logs d of
                Raised e \<Rightarrow> (Raised e, Some name, fs1, [Created name, Wait name, Logs name])
              | Returned logs \<Rightarrow>
                 (let calls = [Created name, Wait name, Logs name, Remove name] in
                  case container_remove d of
                    Raised e \<Rightarrow> (Raised e, Some name, fs1, calls)
                  | Returned u \<Rightarrow>
                      if exit_status = 0 then
                        (case fs1 output_path of
                           None \<Rightarrow> (Returned False, Some name, fs1, calls)
                         | Some output_size \<Rightarrow>
                             if output_size = 0 then (Returned False, Some name, fs1, calls)
                             else
                               (let (is_clean, scan_message) =
                                      scan_with_virustotal (api_key env) (vt env output_path)
                                in if \<not> is_clean then
                                     (Returned False, Some name, fs1(output_path := None), calls)
                                   else (Returned True, Some name, fs1, calls)))
                      else (Returned False, Some name, fs1, calls)))))"

text \<open>Lines 167-188 and the body above: the whole \<open>try\<close> block.\<close>

definition sanitize_try ::
  "app_env \<Rightarrow> path \<Rightarrow> path \<Rightarrow> string \<Rightarrow> files \<Rightarrow>
     bool outcome \<times> string option \<times> files \<times> docker_event list"
where
  "sanitize_try env input_path output_path job_id fs =
     (case images_get (docker env) of
        ImageFound \<Rightarrow>
          (let (r, container, fs', calls) = run_worker env input_path output_path job_id fs
           in (r, container, fs', ImagesGet # calls))
      | ImageNotFound \<Rightarrow>
          (case images_build (docker env) of
             Raised build_error \<Rightarrow> (Returned False, None, fs, [ImagesGet, ImagesBuild])
           | Returned u \<Rightarrow>
               (let (r, container, fs', calls) = run_worker env input_path output_path job_id fs
                in (r, container, fs', ImagesGet # ImagesBuild # calls)))
      | ImageLookupRaised e \<Rightarrow> (Raised e, None, fs, [ImagesGet]))"

text \<open>
  \<open>sanitize_in_container\<close>: the connection, the \<open>try\<close> block, \<open>except Exception: return
  False\<close>, and the \<open>finally\<close> that calls \<open>container.remove(force=True)\<close> when \<open>container\<close> is
  set, ignoring what that call raises. It returns its result, the filesystem and the calls
  made on the daemon.
\<close>

definition sanitize_in_container ::
  "app_env \<Rightarrow> path \<Rightarrow> path \<Rightarrow> string \<Rightarrow> files \<Rightarrow> bool \<times> files \<times> docker_event list"
where
  "sanitize_in_container env input_path output_path job_id fs =
     (case connect (docker env) of
        Raised e \<Rightarrow> (False, fs, [])
      | Returned u \<Rightarrow>
         (let (r, container, fs', calls) = sanitize_try env input_path output_path job_id fs;
              result = (case r of Raised e \<Rightarrow> False | Returned b \<Rightarrow> b);
              finally = (case container of None \<Rightarrow> [] | Some name \<Rightarrow> [Remove name])
          in (result, fs', calls @ finally)))"

subsection \<open>app.py: the job controller\<close>

record request =
  is_post :: bool
  has_file :: bool
  filename :: string
  file_size :: nat

datatype body = Page | JsonError string | SendFile path string

text \<open>
  A response: the status, the body, the headers the controller sets itself (those that
  \<open>send_file\<close> and \<open>jsonify\<close> add are left out) and the callbacks registered with
  \<open>call_on_close\<close>, which the server runs once the body has been sent.
\<close>

record response =
  status :: nat
  body :: body
  headers :: "(string \<times> string) list"
  call_on_close :: "(files \<Rightarrow> files) list"

definition jsonify_error :: "string \<Rightarrow> nat \<Rightarrow> response" where
  "jsonify_error message code =
     \<lparr>status = code, body = JsonError message, headers = [], call_on_close = []\<rparr>"

text \<open>The closure \<open>cleanup\<close> of lines 998-1009.\<close>

definition cleanup :: "path \<Rightarrow> path \<Rightarrow> files \<Rightarrow> files" where
  "cleanup input_path output_path fs =
     (let fs1 = (if fs input_path \<noteq> None then fs(input_path := None) else fs)
      in if fs1 output_path \<noteq> None then fs1(output_path := None) else fs1)"

definition input_path_of :: "app_env \<Rightarrow> request \<Rightarrow> path" where
  "input_path_of env req =
     UPLOAD_FOLDER @ ''/'' @ uuid4 env @ ''_'' @ secure_filename env (filename req)"

definition output_path_of :: "app_env \<Rightarrow> path" where
  "output_path_of env = OUTPUT_FOLDER @ ''/'' @ uuid4 env @ ''_sanitized.pdf''"

text \<open>
  \<open>upload_file\<close>. A \<open>file.save\<close> that raises is taken to leave no file; it is the one call of
  the handler outside \<open>sanitize_in_container\<close> and \<open>scan_with_virustotal\<close> (which catch their
  own exceptions) whose exception reaches the handler's \<open>except\<close>.
\<close>

definition upload_file ::
  "app_env \<Rightarrow> request \<Rightarrow> files \<Rightarrow> response \<times> files \<times> docker_event list"
where
  "upload_file env req fs =
     (if \<not> is_post req then
        (\<lparr>status = 200, body = Page, headers = [], call_on_close = []\<rparr>, fs, [])
      else if \<not> has_file req then (jsonify_error ''No file provided'' 400, fs, [])
      else if filename req = [] \<or> \<not> allowed_file (filename req) then
        (jsonify_error ''Invalid file type'' 400, fs, [])
      else if file_size req > MAX_FILE_SIZE then
        (jsonify_error ''File size exceeds 100MB limit'' 400, fs, [])
      else
        (let filename = secure_filename env (filename req);
             job_id = uuid4 env;
             input_path = input_path_of env req;
             output_path = output_path_of env
         in case file_save env of
              Raised e \<Rightarrow> (jsonify_error e 500, fs, [])
            | Returned u \<Rightarrow>
               (let fs1 = fs(input_path \<mapsto> file_size req);
                    (is_clean, scan_message) =
                       scan_with_virustotal (api_key env) (vt env input_path);
                    threat_detected = (\<not> is_clean);
                    (ok, fs2, calls) =
                       sanitize_in_container env input_path output_path job_id fs1
                in if ok \<and> fs2 output_path \<noteq> None then
                     (\<lparr>status = 200,
                       body = SendFile output_path
                                (''sanitized_'' @ rsplit_before filename @ ''.pdf''),
                       headers =
                         (if threat_detected then
                            [(''X-Threat-Warning'',
                              ''Original file contained malware - now sanitized''),
                             (''X-Threat-Details'', scan_message)]
                          else []),
                       call_on_close = [cleanup input_path output_path]\<rparr>,
                      fs2, calls)
                   else
                     (jsonify_error ''Sanitization failed'' 500,
                      (if fs2 input_path \<noteq> None then fs2(input_path := None) else fs2),
                      calls))))"

subsection \<open>worker.py: PDF trees and files\<close>

text \<open>
  A PDF object as PyPDF2 presents it; a dictionary keeps its entries in order.
  \<open>PIndirect\<close> is a reference that has not been resolved (an \<open>IndirectObject\<close>). A document
  is its page dictionaries, its catalog (without the \<open>/Pages\<close> entry, which is the first
  component) and its information dictionary.
\<close>

datatype pdfobj =
    PName string
  | PNum int
  | PStr string
  | PArr "pdfobj list"
  | PDict "(string \<times> pdfobj) list"
  | PIndirect

type_synonym pdfdict = "(string \<times> pdfobj) list"

record pdf =
  pages :: "pdfdict list"
  root_object :: pdfdict
  info_object :: pdfdict

record image =
  img_width :: nat
  img_height :: nat
  mode :: string

text \<open>
  One \<open>drawImage(ImageReader(img), x, y, width, height)\<close> followed by \<open>showPage()\<close>: a page of
  the canvas. The four numbers are Python floats; each is held as the rational number that
  the float denotes.
\<close>

record placement =
  draw_image :: image
  draw_x :: rat
  draw_y :: rat
  draw_width :: rat
  draw_height :: rat

text \<open>
  A file of the worker: a PDF that PyPDF2 reads as the given tree, a PDF written by a
  reportlab canvas with letter pages, a one-page PDF written by PIL from an image, or any
  other sequence of bytes (of the given length), on which \<open>PdfReader\<close> raises.
\<close>

datatype wfile =
    PdfDoc pdf
  | CanvasPdf "placement list"
  | ImagePdf image
  | Bytes nat

type_synonym wfiles = "path \<rightharpoonup> wfile"

text \<open>The catalog and information dictionary of a new \<open>PdfWriter()\<close>, and of a PDF written
  by another library, which has no name tree and no open action.\<close>

definition new_root :: pdfdict where
  "new_root = [(''/Type'', PName ''/Catalog'')]"

definition new_page :: pdfdict where
  "new_page = [(''/Type'', PName ''/Page'')]"

definition PdfWriter :: pdf where
  "PdfWriter = \<lparr>pages = [], root_object = new_root,
                 info_object = [(''/Producer'', PStr ''PyPDF2'')]\<rparr>"

definition PdfReader :: "wfiles \<Rightarrow> path \<Rightarrow> pdf outcome" where
  "PdfReader fs pdf_path =
     (case fs pdf_path of
        None \<Rightarrow> Raised ''No such file or directory''
      | Some (PdfDoc d) \<Rightarrow> Returned d
      | Some (CanvasPdf ps) \<Rightarrow>
          Returned \<lparr>pages = map (\<lambda>p. new_page) ps, root_object = new_root, info_object = []\<rparr>
      | Some (ImagePdf img) \<Rightarrow>
          Returned \<lparr>pages = [new_page], root_object = new_root, info_object = []\<rparr>
      | Some (Bytes n) \<Rightarrow> Raised ''invalid pdf'')"

definition and_then :: "'a outcome \<Rightarrow> ('a \<Rightarrow> 'b outcome) \<Rightarrow> 'b outcome" where
  "and_then m f = (case m of Raised e \<Rightarrow> Raised e | Returned v \<Rightarrow> f v)"

text \<open>Python's \<open>key in d\<close>, \<open>d[key]\<close>, \<open>del d[key]\<close> and \<open>d[key] = v\<close> on a dictionary.\<close>

definition has_key :: "string \<Rightarrow> pdfdict \<Rightarrow> bool" where
  "has_key key d \<longleftrightarrow> key \<in> fst ` set d"

definition get_item :: "string \<Rightarrow> pdfdict \<Rightarrow> pdfobj outcome" where
  "get_item key d = (case map_of d key of None \<Rightarrow> Raised ''KeyError'' | Some v \<Rightarrow> Returned v)"

definition del_key :: "string \<Rightarrow> pdfdict \<Rightarrow> pdfdict outcome" where
  "del_key key d =
     (if has_key key d then Returned (filter (\<lambda>kv. fst kv \<noteq> key) d) else Raised ''KeyError'')"

definition set_item :: "string \<Rightarrow> pdfobj \<Rightarrow> pdfdict \<Rightarrow> pdfdict" where
  "set_item key v d =
     (if has_key key d then map (\<lambda>kv. if fst kv = key then (key, v) else kv) d
      else d @ [(key, v)])"

text \<open>
  \<open>key in obj\<close> and \<open>del obj[key]\<close> on the value of an entry, which need not be a dictionary:
  an array is searched for an equal element, a name or string for a substring, a number
  and an unresolved reference raise TypeError (they are not iterable); only a dictionary
  allows deleting by key.
\<close>

definition is_substring :: "string \<Rightarrow> string \<Rightarrow> bool" where
  "is_substring k s \<longleftrightarrow> (\<exists>i \<in> set (upt 0 (Suc (length s))). take (length k) (drop i s) = k)"

fun py_in :: "string \<Rightarrow> pdfobj \<Rightarrow> bool outcome" where
  "py_in key (PDict d) = Returned (has_key key d)"
| "py_in key (PArr xs) = Returned (PName key \<in> set xs \<or> PStr key \<in> set xs)"
| "py_in key (PName s) = Returned (is_substring key s)"
| "py_in key (PStr s) = Returned (is_substring key s)"
| "py_in key (PNum n) = Raised ''TypeError''"
| "py_in key PIndirect = Raised ''TypeError''"

fun del_in :: "string \<Rightarrow> pdfobj \<Rightarrow> pdfobj outcome" where
  "del_in key (PDict d) = and_then (del_key key d) (\<lambda>d'. Returned (PDict d'))"
| "del_in key obj = Raised ''TypeError''"

subsection \<open>worker.py: the CDR transformer\<close>

text \<open>Lines 54-64: the three guarded deletions on one page.\<close>

definition strip_page :: "pdfdict \<Rightarrow> pdfdict outcome" where
  "strip_page page =
     and_then (if has_key ''/Annots'' page then del_key ''/Annots'' page else Returned page)
       (\<lambda>page1.
     and_then (if has_key ''/AA'' page1 then del_key ''/AA'' page1 else Returned page1)
       (\<lambda>page2.
     (if has_key ''/A'' page2 then del_key ''/A'' page2 else Returned page2)))"

text \<open>The loop of lines 53-66 over the reader's pages; \<open>writer.add_page\<close> appends.\<close>

fun copy_pages :: "pdfdict list \<Rightarrow> pdf \<Rightarrow> pdf outcome" where
  "copy_pages [] writer = Returned writer"
| "copy_pages (page # rest) writer =
     and_then (strip_page page)
       (\<lambda>page'. copy_pages rest (writer\<lparr>pages := pages writer @ [page']\<rparr>))"

text \<open>Lines 69-71 (key \<open>/JavaScript\<close>) and 74-76 (key \<open>/EmbeddedFiles\<close>) on the writer's catalog.\<close>

definition remove_from_names :: "string \<Rightarrow> pdfdict \<Rightarrow> pdfdict outcome" where
  "remove_from_names key catalog =
     (if has_key ''/Names'' catalog then
        and_then (get_item ''/Names'' catalog) (\<lambda>names.
        and_then (py_in key names) (\<lambda>present.
          if present then
            and_then (del_in key names) (\<lambda>names'. Returned (set_item ''/Names'' names' catalog))
          else Returned catalog))
      else Returned catalog)"

definition add_metadata :: "string \<Rightarrow> pdfdict \<Rightarrow> pdfdict" where
  "add_metadata now i =
     set_item ''/CreationDate'' (PStr now)
       (set_item ''/Producer'' (PStr ''CleanSheet'')
         (set_item ''/Creator'' (PStr ''CleanSheet Sanitization System'')
           (set_item ''/Subject'' (PStr ''Document Sanitized'')
             (set_item ''/Author'' (PStr ''CleanSheet'')
               (set_item ''/Title'' (PStr ''Sanitized Document'') i)))))"

text \<open>Lines 49-94: the \<open>try\<close> block of \<open>disarm_pdf\<close>, up to the tree that is written.\<close>

definition disarm_tree :: "string \<Rightarrow> pdf \<Rightarrow> pdf outcome" where
  "disarm_tree now reader =
     and_then (copy_pages (pages reader) PdfWriter) (\<lambda>writer.
     and_then (remove_from_names ''/JavaScript'' (root_object writer)) (\<lambda>root1.
     and_then (remove_from_names ''/EmbeddedFiles'' root1) (\<lambda>root2.
     and_then (if has_key ''/OpenAction'' root2 then del_key ''/OpenAction'' root2
               else Returned root2) (\<lambda>root3.
       Returned (writer\<lparr>root_object := root3,
                        info_object := add_metadata now (info_object writer)\<rparr>)))))"

text \<open>\<open>shutil.copy(src, dst)\<close> raises when the source is missing.\<close>

definition copy :: "path \<Rightarrow> path \<Rightarrow> wfiles \<Rightarrow> wfiles outcome" where
  "copy src dst fs =
     (case fs src of
        None \<Rightarrow> Raised ''No such file or directory''
      | Some f \<Rightarrow> Returned (fs(dst \<mapsto> f)))"

text \<open>
  \<open>disarm_pdf\<close>: \<open>True\<close> and the written tree, or, when anything in the \<open>try\<close> block raised,
  the original copied forward and \<open>False\<close>; the copy in the handler can itself raise.
\<close>

definition disarm_pdf :: "string \<Rightarrow> path \<Rightarrow> path \<Rightarrow> wfiles \<Rightarrow> (bool \<times> wfiles) outcome" where
  "disarm_pdf now pdf_path output_path fs =
     (case and_then (PdfReader fs pdf_path) (disarm_tree now) of
        Returned writer \<Rightarrow> Returned (True, fs(output_path \<mapsto> PdfDoc writer))
      | Raised e \<Rightarrow> and_then (copy pdf_path output_path fs) (\<lambda>fs'. Returned (False, fs')))"

subsection \<open>worker.py: normalisation, rasterisation and reconstruction\<close>

text \<open>
  What the worker's libraries and tools do: the clock, the rasteriser
  \<open>convert_from_path(path, dpi)\<close> on the file at the path, \<open>Image.open\<close> on the input, and
  the office converter (it raises on a timeout or a non-zero exit; otherwise it may or may
  not have left the converted document).
\<close>

record worker_env =
  now :: string
  convert_from_path :: "wfile \<Rightarrow> nat \<Rightarrow> image list outcome"
  image_open :: "image outcome"
  libreoffice :: "pdf option outcome"

text \<open>
  \<open>strip_metadata_from_image\<close>; only the size and the mode of an image are kept here, and
  the PIL calls are taken to succeed.
\<close>

definition strip_metadata_from_image :: "image \<Rightarrow> image" where
  "strip_metadata_from_image img =
     (let img1 =
        (if mode img \<in> {''RGBA'', ''LA'', ''P''} then
           \<lparr>img_width = img_width img, img_height = img_height img, mode = ''RGB''\<rparr>
         else if mode img \<noteq> ''RGB'' then img\<lparr>mode := ''RGB''\<rparr>
         else img)
      in \<lparr>img_width = img_width img1, img_height = img_height img1, mode = mode img1\<rparr>)"

definition strip_macros_from_office ::
  "worker_env \<Rightarrow> path \<Rightarrow> path \<Rightarrow> wfiles \<Rightarrow> bool \<times> wfiles"
where
  "strip_macros_from_office wenv input_path output_pdf fs =
     (case libreoffice wenv of
        Raised e \<Rightarrow> (False, fs)
      | Returned None \<Rightarrow> (False, fs)
      | Returned (Some converted) \<Rightarrow> (True, fs(output_pdf \<mapsto> PdfDoc converted)))"

text \<open>\<open>convert_to_pdf\<close>. Whenever it raises, it has not changed the filesystem.\<close>

definition convert_to_pdf ::
  "worker_env \<Rightarrow> path \<Rightarrow> path \<Rightarrow> wfiles \<Rightarrow> (bool \<times> wfiles) outcome"
where
  "convert_to_pdf wenv input_path output_path fs =
     (if CHR ''.'' \<notin> set input_path then Raised ''list index out of range''
      else
        (let ext = map lower_char (rsplit_after input_path) in
         if ext = ''pdf'' then
           (let temp_cdr = output_path @ ''.cdr.pdf'' in
            and_then (disarm_pdf (now wenv) input_path temp_cdr fs) (\<lambda>(r, fs1).
            and_then (copy temp_cdr output_path fs1) (\<lambda>fs2.
              Returned (True, if fs2 temp_cdr \<noteq> None then fs2(temp_cdr := None) else fs2))))
         else if ext \<in> {''jpg'', ''jpeg'', ''png''} then
           and_then (image_open wenv) (\<lambda>img0.
             let img = strip_metadata_from_image img0;
                 img' = (if mode img \<noteq> ''RGB'' then img\<lparr>mode := ''RGB''\<rparr> else img)
             in Returned (True, fs(output_path \<mapsto> ImagePdf img')))
         else if ext \<in> {''doc'', ''docx'', ''xls'', ''xlsx'', ''ppt'', ''pptx'', ''odt'', ''rtf''} then
           Returned (strip_macros_from_office wenv input_path output_path fs)
         else
           (case libreoffice wenv of
              Raised e \<Rightarrow> Returned (False, fs)
            | Returned None \<Rightarrow> Returned (False, fs)
            | Returned (Some converted) \<Rightarrow> Returned (True, fs(output_path \<mapsto> PdfDoc converted)))))"

text \<open>\<open>pdf_to_pixels\<close>: the images, or \<open>None\<close> when the rasteriser raised.\<close>

definition pdf_to_pixels :: "worker_env \<Rightarrow> path \<Rightarrow> wfiles \<Rightarrow> image list option" where
  "pdf_to_pixels wenv pdf_path fs =
     (case fs pdf_path of
        None \<Rightarrow> None
      | Some f \<Rightarrow>
         (case convert_from_path wenv f 200 of
            Raised e \<Rightarrow> None
          | Returned images \<Rightarrow> Some images))"

text \<open>
  Python floats are IEEE 754 binary64 numbers, and each arithmetic operation returns the
  float nearest to the exact result, ties going to the even significand. \<open>expo q\<close> is the
  exponent \<open>e\<close> with \<open>2\<^sup>e \<le> q < 2\<^sup>e\<^sup>+\<^sup>1\<close> of a positive \<open>q\<close>, \<open>round_even\<close> rounds to the nearest
  integer, ties to even, and \<open>py_float q\<close> is the float nearest to \<open>q\<close>: \<open>q\<close> rounded to 53
  significant bits. The bounds of the exponent (overflow, subnormal numbers) are left out:
  the sizes of an image are below \<open>2\<^sup>3\<^sup>1\<close>, and the numbers computed from them here stay
  far inside the range.
\<close>

definition expo :: "rat \<Rightarrow> int" where
  "expo q =
     (let (a, b) = quotient_of q; e0 = bitlen a - bitlen b
      in if 2 powi e0 \<le> q then e0 else e0 - 1)"

definition round_even :: "rat \<Rightarrow> int" where
  "round_even t =
     (let m = \<lfloor>t\<rfloor>; r = t - of_int m
      in if r < 1 / 2 then m else if 1 / 2 < r then m + 1 else if even m then m else m + 1)"

definition py_float :: "rat \<Rightarrow> rat" where
  "py_float q =
     (if q = 0 then 0
      else (let u = 2 powi (expo \<bar>q\<bar> - 52)
            in sgn q * of_int (round_even (\<bar>q\<bar> / u)) * u))"

text \<open>\<open>letter\<close> of reportlab: the page size in points, a pair of floats.\<close>

definition letter :: "rat \<times> rat" where
  "letter = (612, 792)"

text \<open>
  Lines 217-233: the body of the loop of \<open>pixels_to_pdf\<close> for one image. The division
  \<open>img_height / float(img_width)\<close> converts both sizes to floats and raises for a width of 0;
  every operation rounds. In the branch that rescales by height, \<open>aspect\<close> is positive.
\<close>

definition place_image :: "image \<Rightarrow> placement outcome" where
  "place_image img0 =
     (let img = strip_metadata_from_image img0 in
      if img_width img = 0 then Raised ''float division by zero''
      else
        (let aspect = py_float (py_float (of_nat (img_height img))
                                  / py_float (of_nat (img_width img)));
             (page_width, page_height) = letter;
             display_width = py_float (page_width - 40);
             display_height = py_float (display_width * aspect);
             (display_width, display_height) =
               (if display_height > py_float (page_height - 40) then
                  (py_float (py_float (page_height - 40) / aspect),
                   py_float (page_height - 40))
                else (display_width, display_height))
         in Returned \<lparr>draw_image = img,
                       draw_x = py_float (py_float (page_width - display_width) / 2),
                       draw_y = py_float (py_float (page_height - display_height) / 2),
                       draw_width = display_width,
                       draw_height = display_height\<rparr>))"

fun draw_pages :: "image list \<Rightarrow> placement list outcome" where
  "draw_pages [] = Returned []"
| "draw_pages (img # images) =
     and_then (place_image img) (\<lambda>p.
     and_then (draw_pages images) (\<lambda>ps. Returned (p # ps)))"

text \<open>\<open>pixels_to_pdf\<close>: the canvas is written by \<open>c.save()\<close> after the loop only.\<close>

definition pixels_to_pdf :: "image list \<Rightarrow> path \<Rightarrow> wfiles \<Rightarrow> bool \<times> wfiles" where
  "pixels_to_pdf images output_path fs =
     (case draw_pages images of
        Raised e \<Rightarrow> (False, fs)
      | Returned ps \<Rightarrow> (True, fs(output_path \<mapsto> CanvasPdf ps)))"

subsection \<open>worker.py: the output validator and the pipeline\<close>

text \<open>
  \<open>reader.trailer.get('/Root', {})\<close>: the trailer that \<open>PdfReader\<close> has read holds a reference
  to the catalog under \<open>/Root\<close>, and \<open>get\<close> is the method of \<open>dict\<close>, which hands out the stored
  value; only subscripting (\<open>reader.trailer['/Root']\<close>) resolves the reference. So the value
  is the \<open>IndirectObject\<close> itself.
\<close>

definition trailer_get_Root :: "pdf \<Rightarrow> pdfobj" where
  "trailer_get_Root reader = PIndirect"

text \<open>
  Lines 262-263 and 268-269 for one key: \<open>'/Names' in reader.trailer.get('/Root', {})\<close> and
  then \<open>key in reader.trailer['/Root']['/Names']\<close>.
\<close>

definition names_test :: "string \<Rightarrow> pdf \<Rightarrow> bool outcome" where
  "names_test key reader =
     and_then (py_in ''/Names'' (trailer_get_Root reader)) (\<lambda>present.
       if present then and_then (get_item ''/Names'' (root_object reader)) (py_in key)
       else Returned False)"

text \<open>
  \<open>validate_output\<close>; an exception in the tests on the catalog is caught by the inner
  \<open>except\<close>, which returns \<open>False\<close>.
\<close>

definition validate_output :: "path \<Rightarrow> wfiles \<Rightarrow> bool" where
  "validate_output output_path fs =
     (case fs output_path of
        None \<Rightarrow> False
      | Some f \<Rightarrow>
          if f = Bytes 0 then False
          else
            (case PdfReader fs output_path of
               Raised e \<Rightarrow> False
             | Returned reader \<Rightarrow>
                (case names_test ''/JavaScript'' reader of
                   Raised e \<Rightarrow> False
                 | Returned True \<Rightarrow> False
                 | Returned False \<Rightarrow>
                    (case names_test ''/EmbeddedFiles'' reader of
                       Raised e \<Rightarrow> False
                     | Returned True \<Rightarrow> False
                     | Returned False \<Rightarrow> True))))"

definition temp_dir :: path where
  "temp_dir = ''/tmp/cleansheet_work''"

definition rmtree :: "path \<Rightarrow> wfiles \<Rightarrow> wfiles" where
  "rmtree dir fs = (\<lambda>p. if take (length dir + 1) p = dir @ ''/'' then None else fs p)"

text \<open>
  Lines 305-351 of \<open>main\<close>: the exit status and the filesystem when the \<open>try\<close> block is left.
  \<open>sys.exit\<close> is not caught by \<open>except Exception\<close>; any other exception exits with 1.
\<close>

definition main_try :: "worker_env \<Rightarrow> path \<Rightarrow> path \<Rightarrow> wfiles \<Rightarrow> nat \<times> wfiles" where
  "main_try wenv input_file output_file fs =
     (let intermediate_pdf = temp_dir @ ''/intermediate.pdf'';
          cdr_pdf = temp_dir @ ''/cdr.pdf''
      in case convert_to_pdf wenv input_file intermediate_pdf fs of
           Raised e \<Rightarrow> (1, fs)
         | Returned (converted, fs1) \<Rightarrow>
             if \<not> converted then (1, fs1)
             else
               (case disarm_pdf (now wenv) intermediate_pdf cdr_pdf fs1 of
                  Raised e \<Rightarrow> (1, fs1)
                | Returned (r, fs2) \<Rightarrow>
                   (let pixel_images = pdf_to_pixels wenv cdr_pdf fs2 in
                    if pixel_images = None \<or> pixel_images = Some [] then (1, fs2)
                    else
                      (let (written, fs3) = pixels_to_pdf (the pixel_images) output_file fs2 in
                       if \<not> written then (1, fs3)
                       else if \<not> validate_output output_file fs3 then (1, fs3)
                       else (0, fs3)))))"

text \<open>
  \<open>main\<close>, given the environment variables \<open>INPUT_FILE\<close> and \<open>OUTPUT_FILE\<close>: the exit status
  of the worker and the filesystem it leaves.
\<close>

definition main :: "worker_env \<Rightarrow> string option \<Rightarrow> string option \<Rightarrow> wfiles \<Rightarrow> nat \<times> wfiles" where
  "main wenv INPUT_FILE OUTPUT_FILE fs =
     (case (INPUT_FILE, OUTPUT_FILE) of
        (Some input_file, Some output_file) \<Rightarrow>
          if input_file = [] \<or> output_file = [] then (1, fs)
          else if fs input_file = None then (1, fs)
          else
            (let (code, fs') = main_try wenv input_file output_file fs
             in (code, rmtree temp_dir fs'))
      | _ \<Rightarrow> (1, fs))"

section \<open>Vocabulary of the properties\<close>

subsection \<open>Verdicts\<close>

text \<open>
  The interpretation of the stats in the specification's words, and the pair
  \<open>(is_clean, scan_message)\<close> by which \<open>scan_with_virustotal\<close> reports each verdict.
\<close>

datatype verdict = Clean | Suspicious | Malicious

definition spec_verdict :: "stats \<Rightarrow> verdict" where
  "spec_verdict stats =
     (if stats_get stats ''malicious'' 0 \<ge> 1 then Malicious
      else if stats_get stats ''malicious'' 0 = 0 \<and> stats_get stats ''suspicious'' 0 > 3
        then Suspicious
      else Clean)"

fun verdict_result :: "stats \<Rightarrow> verdict \<Rightarrow> bool \<times> string" where
  "verdict_result stats Malicious =
     (False, ''THREAT DETECTED: '' @ str_int (stats_get stats ''malicious'' 0)
        @ '' engines flagged as malicious'')"
| "verdict_result stats Suspicious =
     (False, ''SUSPICIOUS: '' @ str_int (stats_get stats ''suspicious'' 0)
        @ '' engines flagged as suspicious'')"
| "verdict_result stats Clean =
     (True, ''Clean (0/''
        @ str_int (stats_get stats ''harmless'' 0 + stats_get stats ''undetected'' 0)
        @ '' engines)'')"

text \<open>A poll that neither raises nor completes, and a poll that completes with stats.\<close>

definition pending :: "(string \<times> stats) http_response outcome \<Rightarrow> bool" where
  "pending p =
     (case p of
        Raised e \<Rightarrow> False
      | Returned r \<Rightarrow>
          status_code r \<noteq> 200 \<or>
          (case json r of
             Raised e \<Rightarrow> False
           | Returned (state, stats) \<Rightarrow> state \<noteq> ''completed''))"

definition completed_with :: "(string \<times> stats) http_response outcome \<Rightarrow> stats \<Rightarrow> bool" where
  "completed_with p stats =
     (case p of
        Raised e \<Rightarrow> False
      | Returned r \<Rightarrow> status_code r = 200 \<and> json r = Returned (''completed'', stats))"

text \<open>The hash-lookup regime: the lookup answers 200 with the stats.\<close>

definition hash_lookup_found :: "vt_env \<Rightarrow> stats \<Rightarrow> bool" where
  "hash_lookup_found sv stats =
     (case lookup sv of
        Raised e \<Rightarrow> False
      | Returned r \<Rightarrow> status_code r = 200 \<and> json r = Returned stats)"

text \<open>
  The submit-and-poll regime: the lookup answers 404, the upload is accepted with an
  analysis id, and poll \<open>k\<close> of the twelve is the first to complete, with the stats.
\<close>

definition lookup_not_found :: "vt_env \<Rightarrow> bool" where
  "lookup_not_found sv =
     (case lookup sv of Raised e \<Rightarrow> False | Returned r \<Rightarrow> status_code r = 404)"

definition upload_accepted :: "vt_env \<Rightarrow> bool" where
  "upload_accepted sv =
     (lookup_not_found sv \<and>
      (case upload sv of
         Raised e \<Rightarrow> False
       | Returned u \<Rightarrow>
           (status_code u = 200 \<or> status_code u = 201) \<and>
           (case json u of Raised e \<Rightarrow> False | Returned analysis_id \<Rightarrow> True)))"

definition analysis_completed :: "vt_env \<Rightarrow> nat \<Rightarrow> stats \<Rightarrow> bool" where
  "analysis_completed sv k stats =
     (upload_accepted sv \<and> k < 12 \<and> (\<forall>i<k. pending (polls sv i))
      \<and> completed_with (polls sv k) stats)"

text \<open>
  The service reports stats for the scanned file: a credential is configured, the digest is
  computed, the stats are engine counts, and one of the two regimes delivers them.
\<close>

definition service_reports :: "string \<Rightarrow> vt_env \<Rightarrow> nat \<Rightarrow> stats \<Rightarrow> bool" where
  "service_reports key sv k stats =
     (key \<noteq> [] \<and> (case file_hash sv of Raised e \<Rightarrow> False | Returned h \<Rightarrow> True)
      \<and> 0 \<le> stats_get stats ''malicious'' 0
      \<and> (hash_lookup_found sv stats \<or> analysis_completed sv k stats))"

text \<open>
  A transport error: with the digest computed, the lookup, the upload after a 404, or poll
  \<open>k\<close> after pending polls raises \<open>e\<close>. A scan is degraded when no credential is configured or
  a transport error occurs.
\<close>

definition transport_error :: "vt_env \<Rightarrow> nat \<Rightarrow> string \<Rightarrow> bool" where
  "transport_error sv k e =
     ((case file_hash sv of Raised e' \<Rightarrow> False | Returned h \<Rightarrow> True) \<and>
      (lookup sv = Raised e
       \<or> (lookup_not_found sv \<and> upload sv = Raised e)
       \<or> (upload_accepted sv \<and> k < 12 \<and> (\<forall>i<k. pending (polls sv i))
           \<and> polls sv k = Raised e)))"

definition degraded :: "string \<Rightarrow> vt_env \<Rightarrow> nat \<Rightarrow> string \<Rightarrow> bool" where
  "degraded key sv k e = (key = [] \<or> transport_error sv k e)"

definition indeterminate :: "string \<Rightarrow> string \<Rightarrow> bool \<times> string" where
  "indeterminate key e =
     (if key = [] then (True, ''No API key configured'')
      else (True, ''Scan error - proceeding: '' @ e))"

subsection \<open>Jobs\<close>

text \<open>An upload that passes the checks made before the size check, and one that is staged.\<close>

definition well_formed :: "request \<Rightarrow> bool" where
  "well_formed req =
     (is_post req \<and> has_file req \<and> filename req \<noteq> [] \<and> allowed_file (filename req))"

definition staged :: "app_env \<Rightarrow> request \<Rightarrow> bool" where
  "staged env req =
     (well_formed req \<and> file_size req \<le> MAX_FILE_SIZE \<and> file_save env = Returned ())"

text \<open>
  The worker succeeds: the daemon is reachable, the image is there or is built, the
  container is launched, exits with status 0 within the wait, its logs are read, it is
  removed, and it has left an output file of \<open>n > 0\<close> bytes.
\<close>

definition worker_succeeds :: "docker_env \<Rightarrow> nat \<Rightarrow> bool" where
  "worker_succeeds d n =
     (connect d = Returned ()
      \<and> (images_get d = ImageFound \<or> images_get d = ImageNotFound \<and> images_build d = Returned ())
      \<and> containers_run d = Launched
      \<and> container_wait d = Returned 0
      \<and> (case container_logs d of Raised e \<Rightarrow> False | Returned logs \<Rightarrow> True)
      \<and> container_remove d = Returned ()
      \<and> worker_writes d = Some n \<and> 0 < n)"

definition produced :: "app_env \<Rightarrow> request \<Rightarrow> nat \<Rightarrow> bool" where
  "produced env req n = (staged env req \<and> worker_succeeds (docker env) n)"

text \<open>The calls made on the daemon for a job whose worker succeeds.\<close>

definition worker_calls :: "app_env \<Rightarrow> docker_event list" where
  "worker_calls env =
     (let name = ''cleansheet-worker-'' @ uuid4 env in
      (if images_get (docker env) = ImageFound then [ImagesGet] else [ImagesGet, ImagesBuild])
      @ [Created name, Wait name, Logs name, Remove name, Remove name])"

definition threat_headers :: "string \<Rightarrow> (string \<times> string) list" where
  "threat_headers details =
     [(''X-Threat-Warning'', ''Original file contained malware - now sanitized''),
      (''X-Threat-Details'', details)]"

text \<open>The two scans of a job, and the name under which the artifact is delivered.\<close>

definition pre_scan :: "app_env \<Rightarrow> request \<Rightarrow> bool \<times> string" where
  "pre_scan env req = scan_with_virustotal (api_key env) (vt env (input_path_of env req))"

definition post_scan :: "app_env \<Rightarrow> bool \<times> string" where
  "post_scan env = scan_with_virustotal (api_key env) (vt env (output_path_of env))"

definition download_name :: "app_env \<Rightarrow> request \<Rightarrow> string" where
  "download_name env req =
     ''sanitized_'' @ rsplit_before (secure_filename env (filename req)) @ ''.pdf''"

subsection \<open>Sandbox instances\<close>

text \<open>
  Every instance created is followed by a removal call on it; the instances created.
\<close>

fun destroyed_after_created :: "docker_event list \<Rightarrow> bool" where
  "destroyed_after_created [] = True"
| "destroyed_after_created (Created name # es) =
     (Remove name \<in> set es \<and> destroyed_after_created es)"
| "destroyed_after_created (e # es) = destroyed_after_created es"

fun created :: "docker_event list \<Rightarrow> string list" where
  "created [] = []"
| "created (Created name # es) = name # created es"
| "created (e # es) = created es"

subsection \<open>Disarmed trees and placements\<close>

text \<open>
  A page without the three entries; a catalog whose name tree, if it has one, has neither
  a \<open>/JavaScript\<close> nor an \<open>/EmbeddedFiles\<close> entry and which has no \<open>/OpenAction\<close>.
\<close>

definition in_names :: "string \<Rightarrow> pdfdict \<Rightarrow> bool outcome" where
  "in_names key catalog =
     (if has_key ''/Names'' catalog then and_then (get_item ''/Names'' catalog) (py_in key)
      else Returned False)"

definition page_disarmed :: "pdfdict \<Rightarrow> bool" where
  "page_disarmed page =
     (\<not> has_key ''/Annots'' page \<and> \<not> has_key ''/AA'' page \<and> \<not> has_key ''/A'' page)"

definition catalog_disarmed :: "pdfdict \<Rightarrow> bool" where
  "catalog_disarmed catalog =
     (in_names ''/JavaScript'' catalog = Returned False
      \<and> in_names ''/EmbeddedFiles'' catalog = Returned False
      \<and> \<not> has_key ''/OpenAction'' catalog)"

definition disarmed :: "pdf \<Rightarrow> bool" where
  "disarmed d = (list_all page_disarmed (pages d) \<and> catalog_disarmed (root_object d))"

text \<open>
  The placement of an image of \<open>w\<close> by \<open>h\<close> pixels on a letter page (612 by 792 points),
  with \<open>a\<close> the float of \<open>h / w\<close>. Scaling: the image is drawn 572 points wide (the page width
  less 40) and \<open>572 * a\<close> high when that height is at most 752 points (the page height less
  40), and 752 points high and \<open>752 / a\<close> wide otherwise, the products and quotients being
  rounded to floats. It lies inside the available 572 by 752 points. Its aspect ratio is
  that of the image up to the rounding of the floats: \<open>draw_height * w\<close> and
  \<open>draw_width * h\<close> differ by at most \<open>2\<^sup>-\<^sup>5\<^sup>1\<close> of their sum. It is centered up to rounding:
  twice the offset plus the drawn size differs from the page size by at most \<open>2\<^sup>-\<^sup>5\<^sup>1\<close> of
  the free space. The margin is at least 20 points on every side.
\<close>

definition fitted :: "image \<Rightarrow> placement \<Rightarrow> bool" where
  "fitted img p =
     (let w = of_nat (img_width img); h = of_nat (img_height img); a = py_float (h / w) in
      (if py_float (572 * a) \<le> 752
       then draw_width p = 572 \<and> draw_height p = py_float (572 * a)
       else draw_height p = 752 \<and> draw_width p = py_float (752 / a))
      \<and> 0 \<le> draw_width p \<and> draw_width p \<le> 572
      \<and> 0 \<le> draw_height p \<and> draw_height p \<le> 752
      \<and> \<bar>draw_height p * w - draw_width p * h\<bar>
           \<le> (draw_height p * w + draw_width p * h) / 2 ^ 51
      \<and> \<bar>2 * draw_x p + draw_width p - 612\<bar> \<le> (612 - draw_width p) / 2 ^ 51
      \<and> \<bar>2 * draw_y p + draw_height p - 792\<bar> \<le> (792 - draw_height p) / 2 ^ 51
      \<and> 20 \<le> draw_x p \<and> 20 \<le> draw_y p)"

text \<open>
  An image of positive width whose sizes are below \<open>2\<^sup>5\<^sup>3\<close>, so that their conversion to
  floats is exact (PIL keeps the sizes in C ints).
\<close>

definition image_sized :: "image \<Rightarrow> bool" where
  "image_sized img = (0 < img_width img \<and> img_width img < 2 ^ 53 \<and> img_height img < 2 ^ 53)"

text \<open>The number of pages of a file, and a rasteriser that renders one image per page.\<close>

definition num_pages :: "wfile \<Rightarrow> nat" where
  "num_pages f =
     (case f of
        PdfDoc d \<Rightarrow> length (pages d)
      | CanvasPdf ps \<Rightarrow> length ps
      | ImagePdf img \<Rightarrow> 1
      | Bytes n \<Rightarrow> 0)"

definition one_image_per_page :: "worker_env \<Rightarrow> bool" where
  "one_image_per_page wenv =
     (\<forall>d dpi images. convert_from_path wenv (PdfDoc d) dpi = Returned images
        \<longrightarrow> length images = length (pages d))"

section \<open>Example environments\<close>

definition vt_down :: vt_env where
  "vt_down =
     \<lparr>file_hash = Returned ''9f86d081'', lookup = Raised ''Connection refused'',
      upload = Raised ''Connection refused'', polls = (\<lambda>i. Raised ''Connection refused'')\<rparr>"

definition vt_found :: "stats \<Rightarrow> vt_env" where
  "vt_found stats =
     \<lparr>file_hash = Returned ''9f86d081'',
      lookup = Returned \<lparr>status_code = 200, json = Returned stats\<rparr>,
      upload = Raised ''unused'', polls = (\<lambda>i. Raised ''unused'')\<rparr>"

definition vt_polled :: "stats \<Rightarrow> vt_env" where
  "vt_polled stats =
     \<lparr>file_hash = Returned ''9f86d081'',
      lookup = Returned \<lparr>status_code = 404, json = Raised ''not found''\<rparr>,
      upload = Returned \<lparr>status_code = 200, json = Returned ''analysis-1''\<rparr>,
      polls = (\<lambda>i. if i = 0 then Returned \<lparr>status_code = 200, json = Returned (''queued'', Map.empty)\<rparr>
                   else Returned \<lparr>status_code = 200, json = Returned (''completed'', stats)\<rparr>)\<rparr>"

definition docker_ok :: docker_env where
  "docker_ok =
     \<lparr>connect = Returned (), images_get = ImageFound, images_build = Returned (),
      containers_run = Launched, worker_writes = Some 2048, container_wait = Returned 0,
      container_logs = Returned ''done'', container_remove = Returned ()\<rparr>"

definition env_no_key :: app_env where
  "env_no_key =
     \<lparr>api_key = [], uuid4 = ''j1'', secure_filename = (\<lambda>name. name),
      file_save = Returned (), vt = (\<lambda>p. vt_down), docker = docker_ok\<rparr>"

definition env_key :: "vt_env \<Rightarrow> vt_env \<Rightarrow> docker_env \<Rightarrow> app_env" where
  "env_key pre post d =
     \<lparr>api_key = ''k'', uuid4 = ''j1'', secure_filename = (\<lambda>name. name),
      file_save = Returned (),
      vt = (\<lambda>p. if p = ''/app/uploads/j1_a.pdf'' then pre else post), docker = d\<rparr>"

definition req_pdf :: "nat \<Rightarrow> request" where
  "req_pdf n = \<lparr>is_post = True, has_file = True, filename = ''a.pdf'', file_size = n\<rparr>"

definition one_per_page :: worker_env where
  "one_per_page =
     \<lparr>now = ''D:20240101000000'',
      convert_from_path =
        (\<lambda>f dpi. Returned (replicate (num_pages f)
                              \<lparr>img_width = 1700, img_height = 2200, mode = ''RGB''\<rparr>)),
      image_open = Raised ''unused'', libreoffice = Raised ''unused''\<rparr>"

definition empty_pdf :: pdf where
  "empty_pdf = \<lparr>pages = [], root_object = new_root, info_object = []\<rparr>"

definition active_pdf :: pdf where
  "active_pdf =
     \<lparr>pages =
        [[(''/Type'', PName ''/Page''), (''/Annots'', PArr [PDict [(''/Subtype'', PName ''/Link'')]]),
          (''/AA'', PDict [(''/O'', PDict [(''/S'', PName ''/JavaScript'')])]),
          (''/A'', PDict [(''/S'', PName ''/Launch'')])],
         new_page],
      root_object =
        [(''/Type'', PName ''/Catalog''),
         (''/Names'', PDict [(''/JavaScript'', PDict []), (''/EmbeddedFiles'', PDict [])]),
         (''/OpenAction'', PDict [(''/S'', PName ''/JavaScript'')])],
      info_object = [(''/Author'', PStr ''someone'')]\<rparr>"

definition active_pdf_disarmed :: pdf where
  "active_pdf_disarmed =
     \<lparr>pages = [new_page, new_page],
      root_object = new_root,
      info_object =
        [(''/Producer'', PStr ''CleanSheet''), (''/Title'', PStr ''Sanitized Document''),
         (''/Author'', PStr ''CleanSheet''), (''/Subject'', PStr ''Document Sanitized''),
         (''/Creator'', PStr ''CleanSheet Sanitization System''),
         (''/CreationDate'', PStr ''D:20240101000000'')]\<rparr>"

definition square_image :: image where
  "square_image = \<lparr>img_width = 1000, img_height = 1000, mode = ''RGB''\<rparr>"

definition letter_scan :: image where
  "letter_scan = \<lparr>img_width = 1700, img_height = 2200, mode = ''RGBA''\<rparr>"

definition tall_image :: image where
  "tall_image = \<lparr>img_width = 100, img_height = 400, mode = ''L''\<rparr>"

section \<open>Properties of the reputation client\<close>

lemma interpret_spec:
  "0 \<le> stats_get stats ''malicious'' 0 \<Longrightarrow>
   (let malicious = stats_get stats ''malicious'' 0;
        suspicious = stats_get stats ''suspicious'' 0
    in if malicious > 0 then
         (False, ''THREAT DETECTED: '' @ str_int malicious @ '' engines flagged as malicious'')
       else if suspicious > 3 then
         (False, ''SUSPICIOUS: '' @ str_int suspicious @ '' engines flagged as suspicious'')
       else
         (True, ''Clean (0/''
            @ str_int (stats_get stats ''harmless'' 0 + stats_get stats ''undetected'' 0)
            @ '' engines)''))
   = verdict_result stats (spec_verdict stats)"
  by (simp add: spec_verdict_def Let_def)

lemma poll_analysis_pending:
  "\<forall>i<k. pending (ps (j + i)) \<Longrightarrow> k \<le> n \<Longrightarrow>
   poll_analysis ps j n = poll_analysis ps (j + k) (n - k)"
proof (induction k arbitrary: j n)
  case 0
  then show ?case by simp
next
  case (Suc k)
  then obtain m where n: "n = Suc m" by (cases n) auto
  have p0: "pending (ps j)" using Suc.prems(1) by (metis add.right_neutral zero_less_Suc)
  have rest: "\<forall>i<k. pending (ps (Suc j + i))" using Suc.prems(1) by auto
  have "k \<le> m" using Suc.prems(2) n by simp
  from Suc.IH[OF rest this]
  have IH: "poll_analysis ps (Suc j) m = poll_analysis ps (Suc j + k) (m - k)" .
  have "poll_analysis ps j (Suc m) = poll_analysis ps (Suc j) m"
    using p0 by (auto simp: pending_def split: outcome.splits)
  then show ?case using IH n by simp
qed

lemma poll_analysis_completed:
  assumes "0 \<le> stats_get stats ''malicious'' 0" and "k < 12"
    and "\<forall>i<k. pending (ps i)" and "completed_with (ps k) stats"
  shows "poll_analysis ps 0 12 = Some (Returned (verdict_result stats (spec_verdict stats)))"
proof -
  obtain m where m: "12 - k = Suc m" using assms(2) by (cases "12 - k") auto
  have "poll_analysis ps 0 12 = poll_analysis ps k (12 - k)"
    using poll_analysis_pending[of k ps 0 12] assms(2,3) by simp
  also have "\<dots> = Some (Returned (verdict_result stats (spec_verdict stats)))"
    unfolding m using assms(1,4)
    by (auto simp: completed_with_def spec_verdict_def Let_def split: outcome.splits)
  finally show ?thesis .
qed

lemma poll_analysis_raises:
  assumes "k < 12" and "\<forall>i<k. pending (ps i)" and "ps k = Raised e"
  shows "poll_analysis ps 0 12 = Some (Raised e)"
proof -
  obtain m where m: "12 - k = Suc m" using assms(1) by (cases "12 - k") auto
  have "poll_analysis ps 0 12 = poll_analysis ps k (12 - k)"
    using poll_analysis_pending[of k ps 0 12] assms(1,2) by simp
  also have "\<dots> = Some (Raised e)"
    unfolding m using assms(3) by simp
  finally show ?thesis .
qed

lemma scan_reports:
  assumes "service_reports key sv k stats"
  shows "scan_with_virustotal key sv = verdict_result stats (spec_verdict stats)"
proof -
  from assms have key: "key \<noteq> []" and m: "0 \<le> stats_get stats ''malicious'' 0"
    and h: "\<exists>h. file_hash sv = Returned h"
    and r: "hash_lookup_found sv stats \<or> analysis_completed sv k stats"
    by (auto simp: service_reports_def split: outcome.splits)
  from h obtain h where h: "file_hash sv = Returned h" ..
  from r show ?thesis
  proof
    assume "hash_lookup_found sv stats"
    then obtain r where "lookup sv = Returned r" "status_code r = 200" "json r = Returned stats"
      by (auto simp: hash_lookup_found_def split: outcome.splits)
    then show ?thesis using key h interpret_spec[OF m]
      by (simp add: scan_with_virustotal_def)
  next
    assume a: "analysis_completed sv k stats"
    then have p: "poll_analysis (polls sv) 0 12
        = Some (Returned (verdict_result stats (spec_verdict stats)))"
      using poll_analysis_completed[OF m, of k "polls sv"]
      by (simp add: analysis_completed_def)
    from a obtain r u ident where "lookup sv = Returned r" "status_code r = 404"
      "upload sv = Returned u" "status_code u = 200 \<or> status_code u = 201"
      "json u = Returned ident"
      by (auto simp: analysis_completed_def upload_accepted_def lookup_not_found_def
               split: outcome.splits)
    then show ?thesis using key h p
      by (auto simp add: scan_with_virustotal_def)
  qed
qed

lemma scan_degraded:
  assumes "degraded key sv k e"
  shows "scan_with_virustotal key sv = indeterminate key e"
proof (cases "key = []")
  case True
  then show ?thesis by (simp add: scan_with_virustotal_def indeterminate_def)
next
  case False
  with assms have t: "transport_error sv k e" by (simp add: degraded_def)
  then obtain h where h: "file_hash sv = Returned h"
    by (auto simp: transport_error_def split: outcome.splits)
  from t consider (a) "lookup sv = Raised e"
    | (b) "lookup_not_found sv" "upload sv = Raised e"
    | (c) "upload_accepted sv" "k < 12" "\<forall>i<k. pending (polls sv i)" "polls sv k = Raised e"
    by (auto simp: transport_error_def)
  then show ?thesis
  proof cases
    case a
    then show ?thesis using False h
      by (simp add: scan_with_virustotal_def indeterminate_def scan_error_def)
  next
    case b
    then obtain r where "lookup sv = Returned r" "status_code r = 404"
      by (auto simp: lookup_not_found_def split: outcome.splits)
    then show ?thesis using False h b(2)
      by (simp add: scan_with_virustotal_def indeterminate_def scan_error_def)
  next
    case c
    have p: "poll_analysis (polls sv) 0 12 = Some (Raised e)"
      using poll_analysis_raises[OF c(2,3,4)] .
    from c(1) obtain r u ident where "lookup sv = Returned r" "status_code r = 404"
      "upload sv = Returned u" "status_code u = 200 \<or> status_code u = 201"
      "json u = Returned ident"
      by (auto simp: upload_accepted_def lookup_not_found_def split: outcome.splits)
    then show ?thesis using False h p
      by (auto simp add: scan_with_virustotal_def indeterminate_def scan_error_def)
  qed
qed

text \<open>
  C3. When the service reports stats for the file, by the hash lookup or by a completed
  analysis after an upload, the scan returns the verdict that the specification reads from
  the stats: malicious when \<open>malicious \<ge> 1\<close>, suspicious when \<open>malicious = 0\<close> and
  \<open>suspicious > 3\<close>, clean otherwise. The counts are those of engines, so \<open>malicious\<close> is
  not negative. Both regimes interpret the stats in the same way.
\<close>

theorem verdict_interpretation:
  assumes "key \<noteq> []" and "file_hash sv = Returned h"
    and "0 \<le> stats_get stats ''malicious'' 0"
    and "hash_lookup_found sv stats \<or> analysis_completed sv k stats"
  shows "scan_with_virustotal key sv = verdict_result stats (spec_verdict stats)"
  using assms scan_reports[of key sv k stats] by (simp add: service_reports_def)

theorem verdict_interpretation_witness:
  "scan_with_virustotal ''k'' (vt_found [''malicious'' \<mapsto> 2, ''suspicious'' \<mapsto> 7])
     = (False, ''THREAT DETECTED: 2 engines flagged as malicious'')
   \<and> scan_with_virustotal ''k'' (vt_polled [''suspicious'' \<mapsto> 5])
     = (False, ''SUSPICIOUS: 5 engines flagged as suspicious'')
   \<and> scan_with_virustotal ''k'' (vt_found [''suspicious'' \<mapsto> 3, ''harmless'' \<mapsto> 60])
     = (True, ''Clean (0/60 engines)'')"
proof -
  have a: "scan_with_virustotal ''k'' (vt_found [''malicious'' \<mapsto> 2, ''suspicious'' \<mapsto> 7])
     = (False, ''THREAT DETECTED: 2 engines flagged as malicious'')"
    using verdict_interpretation
      [of "''k''" "vt_found [''malicious'' \<mapsto> 2, ''suspicious'' \<mapsto> 7]" "''9f86d081''"
          "[''malicious'' \<mapsto> 2, ''suspicious'' \<mapsto> 7]" 0]
    by (simp add: vt_found_def hash_lookup_found_def stats_get_def spec_verdict_def
          str_int_def str_nat.simps)
  have b: "scan_with_virustotal ''k'' (vt_polled [''suspicious'' \<mapsto> 5])
     = (False, ''SUSPICIOUS: 5 engines flagged as suspicious'')"
    using verdict_interpretation
      [of "''k''" "vt_polled [''suspicious'' \<mapsto> 5]" "''9f86d081''" "[''suspicious'' \<mapsto> 5]" 1]
    by (simp add: vt_polled_def hash_lookup_found_def analysis_completed_def
          upload_accepted_def lookup_not_found_def pending_def completed_with_def
          stats_get_def spec_verdict_def str_int_def str_nat.simps)
  have c: "scan_with_virustotal ''k'' (vt_found [''suspicious'' \<mapsto> 3, ''harmless'' \<mapsto> 60])
     = (True, ''Clean (0/60 engines)'')"
    using verdict_interpretation
      [of "''k''" "vt_found [''suspicious'' \<mapsto> 3, ''harmless'' \<mapsto> 60]" "''9f86d081''"
          "[''suspicious'' \<mapsto> 3, ''harmless'' \<mapsto> 60]" 0]
    by (simp add: vt_found_def hash_lookup_found_def stats_get_def spec_verdict_def
          str_int_def str_nat.simps)
  from a b c show ?thesis by simp
qed

section \<open>Properties of the sandbox supervisor\<close>

text \<open>
  The calls of the \<open>try\<close> block contain at most one creation. Unless the launch raises
  after creating the instance: when the block leaves \<open>container\<close> unset it has created no
  instance, and when it leaves it set, the one creation is of that instance.
\<close>

lemma run_worker_created:
  "run_worker env input_path output_path job_id fs = (r, c, fs', calls) \<Longrightarrow>
   length (created calls) \<le> 1
   \<and> ((\<forall>e. containers_run (docker env) \<noteq> StartRaised e) \<longrightarrow>
       (c = None \<and> created calls = [] \<and> destroyed_after_created calls)
       \<or> (\<exists>name. c = Some name \<and> created calls = [name]
             \<and> destroyed_after_created (calls @ [Remove name])))"
  by (auto simp: run_worker_def Let_def
           split: launch.splits outcome.splits option.splits if_splits prod.splits)

lemma sanitize_try_created:
  "sanitize_try env input_path output_path job_id fs = (r, c, fs', calls) \<Longrightarrow>
   length (created calls) \<le> 1
   \<and> ((\<forall>e. containers_run (docker env) \<noteq> StartRaised e) \<longrightarrow>
       (c = None \<and> created calls = [] \<and> destroyed_after_created calls)
       \<or> (\<exists>name. c = Some name \<and> created calls = [name]
             \<and> destroyed_after_created (calls @ [Remove name])))"
  by (auto simp: sanitize_try_def Let_def
           split: image_lookup.splits outcome.splits prod.splits
           dest!: run_worker_created)

lemma created_append_remove: "created (calls @ [Remove name]) = created calls"
  by (induction calls rule: created.induct) auto

lemma sanitize_calls:
  "length (created (snd (snd (sanitize_in_container env input_path output_path job_id fs)))) \<le> 1
   \<and> ((\<forall>e. containers_run (docker env) \<noteq> StartRaised e) \<longrightarrow>
       destroyed_after_created
         (snd (snd (sanitize_in_container env input_path output_path job_id fs))))"
proof (cases "connect (docker env)")
  case (Raised e)
  then show ?thesis by (simp add: sanitize_in_container_def)
next
  case (Returned u)
  obtain r c fs' calls where t:
    "sanitize_try env input_path output_path job_id fs = (r, c, fs', calls)"
    by (cases "sanitize_try env input_path output_path job_id fs") auto
  from sanitize_try_created[OF t] show ?thesis
    using Returned t
    by (auto simp: sanitize_in_container_def created_append_remove split: option.splits)
qed

lemma upload_calls:
  "snd (snd (upload_file env req fs)) = []
   \<or> snd (snd (upload_file env req fs))
        = snd (snd (sanitize_in_container env (input_path_of env req) (output_path_of env)
                      (uuid4 env) (fs(input_path_of env req \<mapsto> file_size req))))"
  by (auto simp: upload_file_def Let_def split: outcome.splits prod.splits)

text \<open>
  Whenever \<open>containers.run\<close> hands the instance to the supervisor or creates none (worker
  exit with status 0 or not, a wait that raises on its timeout, an exception in the wait
  or the log capture, a launch that raises before the creation), each instance created is
  followed by a removal call on it before the supervisor returns; and on every path at
  most one instance is created, by the supervisor and by the controller for one job.
\<close>

lemma sandbox_destroyed_with_handle:
  "length (created (snd (snd (sanitize_in_container env input_path output_path job_id fs)))) \<le> 1
   \<and> length (created (snd (snd (upload_file env req fs')))) \<le> 1
   \<and> ((\<forall>e. containers_run (docker env) \<noteq> StartRaised e) \<longrightarrow>
       destroyed_after_created
         (snd (snd (sanitize_in_container env input_path output_path job_id fs)))
       \<and> destroyed_after_created (snd (snd (upload_file env req fs'))))"
  using upload_calls[of env req fs'] sanitize_calls[of env]
  by auto

text \<open>
  C4. The claim fails on the code when the launch raises after the instance has been
  created (the start of the container fails): \<open>container\<close> is still \<open>None\<close>, so the \<open>finally\<close>
  block makes no removal call, and the supervisor returns \<open>False\<close> with the instance
  \<open>cleansheet-worker-j1\<close> created and no removal call on it.
\<close>

theorem sandbox_left_after_failed_start:
  "sanitize_in_container
       (env_key vt_down vt_down
          (docker_ok\<lparr>containers_run := StartRaised ''OCI runtime create failed''\<rparr>))
       ''/app/uploads/j1_a.pdf'' ''/app/output/j1_sanitized.pdf'' ''j1'' Map.empty
     = (False, Map.empty,
        [ImagesGet, Created ''cleansheet-worker-j1'', RunRaised ''cleansheet-worker-j1''])
   \<and> \<not> destroyed_after_created
        [ImagesGet, Created ''cleansheet-worker-j1'', RunRaised ''cleansheet-worker-j1'']"
  by (simp add: sanitize_in_container_def sanitize_try_def run_worker_def env_key_def
        docker_ok_def Let_def)

section \<open>Properties of the job controller\<close>

lemma paths_differ: "input_path_of env req \<noteq> output_path_of env"
  by (simp add: input_path_of_def output_path_of_def UPLOAD_FOLDER_def OUTPUT_FOLDER_def)

text \<open>The supervisor touches no file but the output file.\<close>

lemma run_worker_frame:
  "run_worker env input_path output_path job_id fs = (r, c, fs', calls) \<Longrightarrow>
   p \<noteq> output_path \<Longrightarrow> fs' p = fs p"
  by (auto simp: run_worker_def Let_def
           split: launch.splits outcome.splits option.splits if_splits prod.splits)

lemma sanitize_frame:
  assumes "p \<noteq> output_path"
  shows "fst (snd (sanitize_in_container env input_path output_path job_id fs)) p = fs p"
proof (cases "connect (docker env)")
  case (Raised e)
  then show ?thesis by (simp add: sanitize_in_container_def)
next
  case (Returned u)
  obtain r c fs' calls where t:
    "sanitize_try env input_path output_path job_id fs = (r, c, fs', calls)"
    by (cases "sanitize_try env input_path output_path job_id fs") auto
  then have "fs' p = fs p" using assms
    by (auto simp: sanitize_try_def Let_def
             split: image_lookup.splits outcome.splits prod.splits
             dest: run_worker_frame)
  then show ?thesis using Returned t by (simp add: sanitize_in_container_def)
qed

text \<open>The supervisor when the worker succeeds: the post-scan decides.\<close>

lemma run_worker_succeeds:
  assumes "worker_succeeds (docker env) n"
  shows "run_worker env input_path output_path job_id fs =
     (Returned (fst (scan_with_virustotal (api_key env) (vt env output_path))),
      Some (''cleansheet-worker-'' @ job_id),
      (if fst (scan_with_virustotal (api_key env) (vt env output_path))
       then fs(output_path \<mapsto> n) else (fs(output_path \<mapsto> n))(output_path := None)),
      [Created (''cleansheet-worker-'' @ job_id), Wait (''cleansheet-worker-'' @ job_id),
       Logs (''cleansheet-worker-'' @ job_id), Remove (''cleansheet-worker-'' @ job_id)])"
  using assms
  by (auto simp: worker_succeeds_def run_worker_def Let_def split: outcome.splits prod.splits)

lemma sanitize_succeeds:
  assumes "worker_succeeds (docker env) n"
  shows "sanitize_in_container env input_path (output_path_of env) (uuid4 env) fs =
     (fst (post_scan env),
      (if fst (post_scan env) then fs(output_path_of env \<mapsto> n)
       else (fs(output_path_of env \<mapsto> n))(output_path_of env := None)),
      worker_calls env)"
proof -
  from assms have c: "connect (docker env) = Returned ()"
    and i: "images_get (docker env) = ImageFound
            \<or> images_get (docker env) = ImageNotFound \<and> images_build (docker env) = Returned ()"
    by (auto simp: worker_succeeds_def)
  from i show ?thesis
    using c run_worker_succeeds[OF assms, of input_path "output_path_of env" "uuid4 env" fs]
    by (auto simp: sanitize_in_container_def sanitize_try_def worker_calls_def post_scan_def
          Let_def)
qed

text \<open>The controller on a staged upload whose worker succeeds.\<close>

lemma upload_produced:
  assumes "produced env req n"
  shows "upload_file env req fs =
     (if fst (post_scan env) then
        (\<lparr>status = 200,
          body = SendFile (output_path_of env) (download_name env req),
          headers = (if fst (pre_scan env req) then [] else threat_headers (snd (pre_scan env req))),
          call_on_close = [cleanup (input_path_of env req) (output_path_of env)]\<rparr>,
         fs(input_path_of env req \<mapsto> file_size req, output_path_of env \<mapsto> n),
         worker_calls env)
      else
        (jsonify_error ''Sanitization failed'' 500,
         (fs(input_path_of env req \<mapsto> file_size req, output_path_of env \<mapsto> n))
           (output_path_of env := None, input_path_of env req := None),
         worker_calls env))"
proof -
  from assms have w: "worker_succeeds (docker env) n" and s: "staged env req"
    by (auto simp: produced_def)
  from s have v: "is_post req" "has_file req" "filename req \<noteq> []" "allowed_file (filename req)"
    "\<not> file_size req > MAX_FILE_SIZE" "file_save env = Returned ()"
    by (auto simp: staged_def well_formed_def)
  obtain c m where pre: "scan_with_virustotal (api_key env) (vt env (input_path_of env req)) = (c, m)"
    by (cases "scan_with_virustotal (api_key env) (vt env (input_path_of env req))") auto
  show ?thesis
    using v pre paths_differ[of env req]
    by (simp add: upload_file_def Let_def sanitize_succeeds[OF w] pre_scan_def
          download_name_def threat_headers_def)
qed

text \<open>
  C9. An upload with a file, an allowed name and a size of exactly 100 MiB is not rejected:
  the status of the answer is not 400. With 100 MiB + 1 bytes or
  more the answer is 400 with the error \<open>File size exceeds 100MB limit\<close>, the filesystem is
  as before, so no staging file has been created, and no sandbox call has been made.
\<close>

theorem size_limit:
  assumes "well_formed req"
  shows "(file_size req = 100 * 1024 * 1024 \<longrightarrow>
            status (fst (upload_file env req fs)) \<noteq> 400)
         \<and> (file_size req \<ge> 100 * 1024 * 1024 + 1 \<longrightarrow>
            upload_file env req fs
              = (jsonify_error ''File size exceeds 100MB limit'' 400, fs, []))"
proof -
  from assms have v: "is_post req" "has_file req" "filename req \<noteq> []" "allowed_file (filename req)"
    by (auto simp: well_formed_def)
  have big: "file_size req \<ge> 100 * 1024 * 1024 + 1 \<Longrightarrow>
      upload_file env req fs = (jsonify_error ''File size exceeds 100MB limit'' 400, fs, [])"
    using v by (simp add: upload_file_def MAX_FILE_SIZE_def)
  have ok: "file_size req = 100 * 1024 * 1024 \<Longrightarrow>
      status (fst (upload_file env req fs)) \<noteq> 400"
    using v
    by (auto simp: upload_file_def MAX_FILE_SIZE_def Let_def jsonify_error_def
             split: outcome.splits prod.splits)
  from big ok show ?thesis by blast
qed

theorem size_limit_witness:
  "well_formed (req_pdf (100 * 1024 * 1024)) \<and> well_formed (req_pdf (100 * 1024 * 1024 + 1))
   \<and> status (fst (upload_file env_no_key (req_pdf (100 * 1024 * 1024)) Map.empty)) \<noteq> 400
   \<and> upload_file env_no_key (req_pdf (100 * 1024 * 1024 + 1)) Map.empty
       = (jsonify_error ''File size exceeds 100MB limit'' 400, Map.empty, [])"
proof -
  have w: "well_formed (req_pdf n)" for n
    by (simp add: well_formed_def req_pdf_def allowed_file_def rsplit_after_def
          lower_char_def ALLOWED_EXTENSIONS_def)
  show ?thesis
    using w size_limit[OF w, of "100 * 1024 * 1024" env_no_key Map.empty]
      size_limit[OF w, of "100 * 1024 * 1024 + 1" env_no_key Map.empty]
    by (simp add: req_pdf_def)
qed

text \<open>The pre-scan decides the threat headers and nothing else.\<close>

lemma run_worker_pre_scan:
  "input_path \<noteq> output_path \<Longrightarrow>
   run_worker (env\<lparr>vt := (vt env)(input_path := sv)\<rparr>) input_path output_path job_id fs
     = run_worker env input_path output_path job_id fs"
proof -
  assume "input_path \<noteq> output_path"
  then have "vt (env\<lparr>vt := (vt env)(input_path := sv)\<rparr>) output_path = vt env output_path"
    by simp
  then show ?thesis
    by (simp add: run_worker_def Let_def
          cong: launch.case_cong outcome.case_cong option.case_cong if_cong)
qed

lemma sanitize_pre_scan:
  "input_path \<noteq> output_path \<Longrightarrow>
   sanitize_in_container (env\<lparr>vt := (vt env)(input_path := sv)\<rparr>) input_path output_path job_id fs
     = sanitize_in_container env input_path output_path job_id fs"
  by (simp add: sanitize_in_container_def sanitize_try_def run_worker_pre_scan
        cong: image_lookup.case_cong outcome.case_cong)

lemma upload_pre_scan:
  "status (fst (upload_file (env\<lparr>vt := (vt env)(input_path_of env req := sv)\<rparr>) req fs))
     = status (fst (upload_file env req fs))
   \<and> body (fst (upload_file (env\<lparr>vt := (vt env)(input_path_of env req := sv)\<rparr>) req fs))
     = body (fst (upload_file env req fs))
   \<and> snd (upload_file (env\<lparr>vt := (vt env)(input_path_of env req := sv)\<rparr>) req fs)
     = snd (upload_file env req fs)"
proof -
  have i: "input_path_of (env\<lparr>vt := (vt env)(input_path_of env req := sv)\<rparr>) req
           = input_path_of env req"
    and p: "output_path_of (env\<lparr>vt := (vt env)(input_path_of env req := sv)\<rparr>)
           = output_path_of env"
    by (simp_all add: input_path_of_def output_path_of_def)
  obtain c m where pre:
    "scan_with_virustotal (api_key env) (vt env (input_path_of env req)) = (c, m)"
    by (cases "scan_with_virustotal (api_key env) (vt env (input_path_of env req))") auto
  obtain c' m' where pre': "scan_with_virustotal (api_key env) sv = (c', m')"
    by (cases "scan_with_virustotal (api_key env) sv") auto
  obtain ok fs2 calls where san:
    "sanitize_in_container env (input_path_of env req) (output_path_of env) (uuid4 env)
       (fs(input_path_of env req \<mapsto> file_size req)) = (ok, fs2, calls)"
    by (cases "sanitize_in_container env (input_path_of env req) (output_path_of env)
                 (uuid4 env) (fs(input_path_of env req \<mapsto> file_size req))") auto
  show ?thesis
    by (auto simp add: upload_file_def i p Let_def jsonify_error_def
          sanitize_pre_scan[OF paths_differ] pre pre' san split: outcome.splits)
qed

text \<open>The example job: a valid upload \<open>a.pdf\<close> whose worker succeeds.\<close>

lemma example_well_formed: "well_formed (req_pdf n)"
  by (simp add: well_formed_def req_pdf_def allowed_file_def rsplit_after_def
        lower_char_def ALLOWED_EXTENSIONS_def)

lemma example_produced:
  "produced (env_key pre post docker_ok) (req_pdf 1024) 2048"
  "produced env_no_key (req_pdf 1024) 2048"
  by (simp_all add: produced_def staged_def example_well_formed worker_succeeds_def
        env_key_def env_no_key_def docker_ok_def MAX_FILE_SIZE_def)
    (simp_all add: req_pdf_def)

lemma example_paths:
  "input_path_of (env_key pre post d) (req_pdf n) = ''/app/uploads/j1_a.pdf''"
  "output_path_of (env_key pre post d) = ''/app/output/j1_sanitized.pdf''"
  "input_path_of env_no_key (req_pdf n) = ''/app/uploads/j1_a.pdf''"
  "output_path_of env_no_key = ''/app/output/j1_sanitized.pdf''"
  by (simp_all add: input_path_of_def output_path_of_def env_key_def env_no_key_def
        req_pdf_def UPLOAD_FOLDER_def OUTPUT_FOLDER_def)

lemma example_scans:
  "pre_scan (env_key pre post d) (req_pdf n) = scan_with_virustotal ''k'' pre"
  "post_scan (env_key pre post d) = scan_with_virustotal ''k'' post"
  by (simp_all add: pre_scan_def post_scan_def example_paths)
    (simp_all add: env_key_def)

lemma example_reports:
  "0 \<le> stats_get stats ''malicious'' 0 \<Longrightarrow> service_reports ''k'' (vt_found stats) 0 stats"
  by (simp add: service_reports_def vt_found_def hash_lookup_found_def)

lemma example_down: "degraded ''k'' vt_down 0 ''Connection refused''"
  by (simp add: degraded_def transport_error_def vt_down_def)

text \<open>
  C2. Take a staged upload whose worker succeeds. If the post-scan reports stats with a
  malicious verdict, the output file is removed and the answer is 500
  \<open>Sanitization failed\<close>. If the pre-scan reports stats with a malicious verdict, the job
  is processed as with any other pre-scan answer (same status, body, files and sandbox
  calls), and when the artifact is delivered the response carries \<open>X-Threat-Warning\<close> and
  \<open>X-Threat-Details\<close>, the latter with the verdict message.
\<close>

theorem malicious_verdicts:
  assumes "produced env req n"
  shows "(service_reports (api_key env) (vt env (output_path_of env)) k stats
          \<and> spec_verdict stats = Malicious \<longrightarrow>
            status (fst (upload_file env req fs)) = 500
            \<and> body (fst (upload_file env req fs)) = JsonError ''Sanitization failed''
            \<and> fst (snd (upload_file env req fs)) (output_path_of env) = None)
         \<and> (service_reports (api_key env) (vt env (input_path_of env req)) k' stats'
          \<and> spec_verdict stats' = Malicious \<longrightarrow>
            snd (snd (upload_file env req fs)) = worker_calls env
            \<and> (\<forall>sv. status (fst (upload_file (env\<lparr>vt := (vt env)(input_path_of env req := sv)\<rparr>) req fs))
                       = status (fst (upload_file env req fs))
                    \<and> body (fst (upload_file (env\<lparr>vt := (vt env)(input_path_of env req := sv)\<rparr>) req fs))
                       = body (fst (upload_file env req fs))
                    \<and> snd (upload_file (env\<lparr>vt := (vt env)(input_path_of env req := sv)\<rparr>) req fs)
                       = snd (upload_file env req fs))
            \<and> (status (fst (upload_file env req fs)) = 200 \<longrightarrow>
                 body (fst (upload_file env req fs))
                   = SendFile (output_path_of env) (download_name env req)
                 \<and> headers (fst (upload_file env req fs))
                   = [(''X-Threat-Warning'', ''Original file contained malware - now sanitized''),
                      (''X-Threat-Details'',
                       ''THREAT DETECTED: '' @ str_int (stats_get stats' ''malicious'' 0)
                         @ '' engines flagged as malicious'')]))"
proof -
  have post: "status (fst (upload_file env req fs)) = 500
      \<and> body (fst (upload_file env req fs)) = JsonError ''Sanitization failed''
      \<and> fst (snd (upload_file env req fs)) (output_path_of env) = None"
    if "service_reports (api_key env) (vt env (output_path_of env)) k stats"
      and "spec_verdict stats = Malicious"
  proof -
    have "post_scan env = verdict_result stats Malicious"
      using scan_reports[OF that(1)] that(2) by (simp add: post_scan_def)
    then show ?thesis
      using paths_differ[of env req]
      by (simp add: upload_produced[OF assms] jsonify_error_def)
  qed
  have pre: "snd (snd (upload_file env req fs)) = worker_calls env
      \<and> (status (fst (upload_file env req fs)) = 200 \<longrightarrow>
           body (fst (upload_file env req fs))
             = SendFile (output_path_of env) (download_name env req)
           \<and> headers (fst (upload_file env req fs))
             = [(''X-Threat-Warning'', ''Original file contained malware - now sanitized''),
                (''X-Threat-Details'',
                 ''THREAT DETECTED: '' @ str_int (stats_get stats' ''malicious'' 0)
                   @ '' engines flagged as malicious'')])"
    if "service_reports (api_key env) (vt env (input_path_of env req)) k' stats'"
      and "spec_verdict stats' = Malicious"
  proof -
    have "pre_scan env req = verdict_result stats' Malicious"
      using scan_reports[OF that(1)] that(2) by (simp add: pre_scan_def)
    then show ?thesis
      by (simp add: upload_produced[OF assms] jsonify_error_def threat_headers_def)
  qed
  from post pre upload_pre_scan[of env req _ fs] show ?thesis by blast
qed

theorem malicious_verdicts_witness:
  "produced (env_key (vt_found Map.empty) (vt_found [''malicious'' \<mapsto> 3]) docker_ok)
     (req_pdf 1024) 2048
   \<and> status (fst (upload_file
        (env_key (vt_found Map.empty) (vt_found [''malicious'' \<mapsto> 3]) docker_ok)
        (req_pdf 1024) Map.empty)) = 500
   \<and> fst (snd (upload_file
        (env_key (vt_found Map.empty) (vt_found [''malicious'' \<mapsto> 3]) docker_ok)
        (req_pdf 1024) Map.empty)) ''/app/output/j1_sanitized.pdf'' = None
   \<and> status (fst (upload_file
        (env_key (vt_found [''malicious'' \<mapsto> 5]) vt_down docker_ok)
        (req_pdf 1024) Map.empty)) = 200
   \<and> headers (fst (upload_file
        (env_key (vt_found [''malicious'' \<mapsto> 5]) vt_down docker_ok)
        (req_pdf 1024) Map.empty))
      = [(''X-Threat-Warning'', ''Original file contained malware - now sanitized''),
         (''X-Threat-Details'', ''THREAT DETECTED: 5 engines flagged as malicious'')]"
proof -
  let ?A = "env_key (vt_found Map.empty) (vt_found [''malicious'' \<mapsto> 3]) docker_ok"
  let ?B = "env_key (vt_found [''malicious'' \<mapsto> 5]) vt_down docker_ok"
  have ra: "service_reports (api_key ?A) (vt ?A (output_path_of ?A)) 0 [''malicious'' \<mapsto> 3]
            \<and> spec_verdict [''malicious'' \<mapsto> 3] = Malicious"
    using example_reports[of "[''malicious'' \<mapsto> 3]"]
    by (simp add: example_paths spec_verdict_def stats_get_def) (simp add: env_key_def)
  have rb: "service_reports (api_key ?B) (vt ?B (input_path_of ?B (req_pdf 1024))) 0
              [''malicious'' \<mapsto> 5]
            \<and> spec_verdict [''malicious'' \<mapsto> 5] = Malicious"
    using example_reports[of "[''malicious'' \<mapsto> 5]"]
    by (simp add: example_paths spec_verdict_def stats_get_def) (simp add: env_key_def)
  have sb: "status (fst (upload_file ?B (req_pdf 1024) Map.empty)) = 200"
    using scan_degraded[OF example_down]
    by (simp add: upload_produced[OF example_produced(1)] example_scans indeterminate_def)
  from malicious_verdicts[OF example_produced(1), of "vt_found Map.empty"
        "vt_found [''malicious'' \<mapsto> 3]" 0 "[''malicious'' \<mapsto> 3]" Map.empty] ra
  have a: "status (fst (upload_file ?A (req_pdf 1024) Map.empty)) = 500
           \<and> fst (snd (upload_file ?A (req_pdf 1024) Map.empty)) ''/app/output/j1_sanitized.pdf''
               = None"
    by (simp add: example_paths)
  from malicious_verdicts[OF example_produced(1), of "vt_found [''malicious'' \<mapsto> 5]" vt_down
        _ _ Map.empty 0 "[''malicious'' \<mapsto> 5]"] rb sb
  have b: "headers (fst (upload_file ?B (req_pdf 1024) Map.empty))
      = [(''X-Threat-Warning'', ''Original file contained malware - now sanitized''),
         (''X-Threat-Details'', ''THREAT DETECTED: 5 engines flagged as malicious'')]"
    by (simp add: stats_get_def str_int_def str_nat.simps)
  from a b sb example_produced(1) show ?thesis by simp
qed

text \<open>
  C10. Take a staged upload whose worker succeeds. If the post-scan reports stats with
  \<open>malicious = 0\<close> and \<open>suspicious > 3\<close>, the output file is removed and the answer is 500
  \<open>Sanitization failed\<close>; the whole outcome (response, files, sandbox calls) is the one the
  job has when the post-scan reports a malicious verdict instead.
\<close>

theorem suspicious_post_scan:
  assumes "produced env req n"
    and "service_reports (api_key env) (vt env (output_path_of env)) k stats"
    and "stats_get stats ''malicious'' 0 = 0" and "stats_get stats ''suspicious'' 0 > 3"
  shows "status (fst (upload_file env req fs)) = 500
         \<and> body (fst (upload_file env req fs)) = JsonError ''Sanitization failed''
         \<and> fst (snd (upload_file env req fs)) (output_path_of env) = None
         \<and> (\<forall>sv k' stats'.
               service_reports (api_key env) sv k' stats' \<and> spec_verdict stats' = Malicious
               \<longrightarrow> upload_file (env\<lparr>vt := (vt env)(output_path_of env := sv)\<rparr>) req fs
                     = upload_file env req fs)"
proof -
  have v: "spec_verdict stats = Suspicious"
    using assms(3,4) by (simp add: spec_verdict_def)
  have post: "post_scan env = verdict_result stats Suspicious"
    using scan_reports[OF assms(2)] v by (simp add: post_scan_def)
  have here: "upload_file env req fs =
      (jsonify_error ''Sanitization failed'' 500,
       (fs(input_path_of env req \<mapsto> file_size req, output_path_of env \<mapsto> n))
         (output_path_of env := None, input_path_of env req := None),
       worker_calls env)"
    using post by (simp add: upload_produced[OF assms(1)])
  have there: "upload_file (env\<lparr>vt := (vt env)(output_path_of env := sv)\<rparr>) req fs
      = upload_file env req fs"
    if r: "service_reports (api_key env) sv k' stats'" and m: "spec_verdict stats' = Malicious"
    for sv k' stats'
  proof -
    let ?env = "env\<lparr>vt := (vt env)(output_path_of env := sv)\<rparr>"
    have p: "produced ?env req n"
      using assms(1) by (simp add: produced_def staged_def)
    have o: "output_path_of ?env = output_path_of env"
      and i: "input_path_of ?env req = input_path_of env req"
      and c: "worker_calls ?env = worker_calls env"
      by (simp_all add: output_path_of_def input_path_of_def worker_calls_def)
    have "post_scan ?env = verdict_result stats' Malicious"
      using scan_reports[OF r] m by (simp add: post_scan_def o)
    then show ?thesis
      by (simp add: upload_produced[OF p] here o i c)
  qed
  have first: "status (fst (upload_file env req fs)) = 500
      \<and> body (fst (upload_file env req fs)) = JsonError ''Sanitization failed''
      \<and> fst (snd (upload_file env req fs)) (output_path_of env) = None"
    using paths_differ[of env req] by (simp add: here jsonify_error_def)
  from first there show ?thesis by blast
qed

theorem suspicious_post_scan_witness:
  "status (fst (upload_file (env_key vt_down (vt_found [''suspicious'' \<mapsto> 4]) docker_ok)
       (req_pdf 1024) Map.empty)) = 500
   \<and> fst (snd (upload_file (env_key vt_down (vt_found [''suspicious'' \<mapsto> 4]) docker_ok)
       (req_pdf 1024) Map.empty)) ''/app/output/j1_sanitized.pdf'' = None"
proof -
  let ?E = "env_key vt_down (vt_found [''suspicious'' \<mapsto> 4]) docker_ok"
  have r: "service_reports (api_key ?E) (vt ?E (output_path_of ?E)) 0 [''suspicious'' \<mapsto> 4]"
    using example_reports[of "[''suspicious'' \<mapsto> 4]"]
    by (simp add: example_paths stats_get_def) (simp add: env_key_def)
  have m: "stats_get [''suspicious'' \<mapsto> 4] ''malicious'' 0 = 0"
    and s: "stats_get [''suspicious'' \<mapsto> 4] ''suspicious'' 0 > 3"
    by (simp_all add: stats_get_def)
  from suspicious_post_scan[OF example_produced(1) r m s, of Map.empty]
  show ?thesis by (simp add: example_paths)
qed




lemma cleanup_removes:
  "cleanup input_path output_path fs input_path = None"
  "cleanup input_path output_path fs output_path = None"
  by (auto simp: cleanup_def Let_def)

lemma example_no_key:
  "post_scan env_no_key = (True, ''No API key configured'')"
  "pre_scan env_no_key req = (True, ''No API key configured'')"
  by (simp_all add: post_scan_def pre_scan_def env_no_key_def scan_with_virustotal_def)

text \<open>
  C1 as amended. For a staged upload: when the artifact is delivered (status 200), the
  removal of the input file and of the output file is scheduled in the one callback
  registered with \<open>call_on_close\<close>, so both removals are deferred until the response has
  been sent, and both files are still there when the controller returns; whatever the
  filesystem is when the callback runs, neither file is there afterwards. When the job
  fails, the answer is 500, no callback is registered and the input file has been removed
  when the controller returns; the output file has been removed when the job failed
  because the post-scan flagged it.
\<close>

theorem cleanup_scheduled:
  assumes "staged env req"
  shows "(status (fst (upload_file env req fs)) = 200 \<longrightarrow>
            call_on_close (fst (upload_file env req fs))
              = [cleanup (input_path_of env req) (output_path_of env)]
            \<and> fst (snd (upload_file env req fs)) (input_path_of env req) = Some (file_size req)
            \<and> fst (snd (upload_file env req fs)) (output_path_of env) \<noteq> None
            \<and> (\<forall>later.
                  cleanup (input_path_of env req) (output_path_of env) later
                    (input_path_of env req) = None
                  \<and> cleanup (input_path_of env req) (output_path_of env) later
                    (output_path_of env) = None))
         \<and> (status (fst (upload_file env req fs)) \<noteq> 200 \<longrightarrow>
            status (fst (upload_file env req fs)) = 500
            \<and> call_on_close (fst (upload_file env req fs)) = []
            \<and> fst (snd (upload_file env req fs)) (input_path_of env req) = None)
         \<and> (produced env req n \<and> \<not> fst (post_scan env) \<longrightarrow>
            status (fst (upload_file env req fs)) = 500
            \<and> fst (snd (upload_file env req fs)) (output_path_of env) = None)"
proof -
  from assms have v: "is_post req" "has_file req" "filename req \<noteq> []"
    "allowed_file (filename req)" "\<not> file_size req > MAX_FILE_SIZE" "file_save env = Returned ()"
    by (auto simp: staged_def well_formed_def)
  obtain c m where pre:
    "scan_with_virustotal (api_key env) (vt env (input_path_of env req)) = (c, m)"
    by (cases "scan_with_virustotal (api_key env) (vt env (input_path_of env req))") auto
  obtain ok fs2 calls where san:
    "sanitize_in_container env (input_path_of env req) (output_path_of env) (uuid4 env)
       (fs(input_path_of env req \<mapsto> file_size req)) = (ok, fs2, calls)"
    by (cases "sanitize_in_container env (input_path_of env req) (output_path_of env)
                 (uuid4 env) (fs(input_path_of env req \<mapsto> file_size req))") auto
  have kept: "fs2 (input_path_of env req) = Some (file_size req)"
  proof -
    have "fst (snd (sanitize_in_container env (input_path_of env req) (output_path_of env)
             (uuid4 env) (fs(input_path_of env req \<mapsto> file_size req))))
           (input_path_of env req)
          = (fs(input_path_of env req \<mapsto> file_size req)) (input_path_of env req)"
      by (rule sanitize_frame[OF paths_differ])
    then show ?thesis using san by simp
  qed
  have first: "status (fst (upload_file env req fs)) = 200 \<longrightarrow>
            call_on_close (fst (upload_file env req fs))
              = [cleanup (input_path_of env req) (output_path_of env)]
            \<and> fst (snd (upload_file env req fs)) (input_path_of env req) = Some (file_size req)
            \<and> fst (snd (upload_file env req fs)) (output_path_of env) \<noteq> None"
    using v pre san kept
    by (auto simp: upload_file_def Let_def jsonify_error_def)
  have second: "status (fst (upload_file env req fs)) \<noteq> 200 \<longrightarrow>
            status (fst (upload_file env req fs)) = 500
            \<and> call_on_close (fst (upload_file env req fs)) = []
            \<and> fst (snd (upload_file env req fs)) (input_path_of env req) = None"
    using v pre san kept
    by (auto simp: upload_file_def Let_def jsonify_error_def)
  have third: "produced env req n \<and> \<not> fst (post_scan env) \<longrightarrow>
            status (fst (upload_file env req fs)) = 500
            \<and> fst (snd (upload_file env req fs)) (output_path_of env) = None"
    using paths_differ[of env req] by (auto simp: upload_produced jsonify_error_def)
  from first second third cleanup_removes show ?thesis by blast
qed

theorem cleanup_scheduled_witness:
  "staged env_no_key (req_pdf 1024)
   \<and> status (fst (upload_file env_no_key (req_pdf 1024) Map.empty)) = 200
   \<and> call_on_close (fst (upload_file env_no_key (req_pdf 1024) Map.empty))
       = [cleanup ''/app/uploads/j1_a.pdf'' ''/app/output/j1_sanitized.pdf'']
   \<and> status (fst (upload_file (env_key vt_down (vt_found [''malicious'' \<mapsto> 1]) docker_ok)
        (req_pdf 1024) Map.empty)) = 500
   \<and> fst (snd (upload_file (env_key vt_down (vt_found [''malicious'' \<mapsto> 1]) docker_ok)
        (req_pdf 1024) Map.empty)) ''/app/uploads/j1_a.pdf'' = None"
proof -
  let ?E = "env_key vt_down (vt_found [''malicious'' \<mapsto> 1]) docker_ok"
  have s: "staged env_no_key (req_pdf 1024)" "staged ?E (req_pdf 1024)"
    using example_produced by (simp_all add: produced_def)
  have ok: "status (fst (upload_file env_no_key (req_pdf 1024) Map.empty)) = 200"
    by (simp add: upload_produced[OF example_produced(2)] example_no_key)
  have "service_reports ''k'' (vt_found [''malicious'' \<mapsto> 1]) 0 [''malicious'' \<mapsto> 1]"
    using example_reports[of "[''malicious'' \<mapsto> 1]"] by (simp add: stats_get_def)
  from scan_reports[OF this]
  have bad: "status (fst (upload_file ?E (req_pdf 1024) Map.empty)) \<noteq> 200"
    by (simp add: upload_produced[OF example_produced(1)] example_scans spec_verdict_def
          stats_get_def jsonify_error_def)
  from cleanup_scheduled[OF s(1), of Map.empty] cleanup_scheduled[OF s(2), of Map.empty]
    ok bad s(1)
  show ?thesis by (simp add: example_paths)
qed

text \<open>
  C1 as stated fails: the job below is delivered with status 200 and its input file is
  still staged when the controller returns, so its removal is not immediate; and the job
  whose worker exits with status 1 after writing an output file fails with 500 and leaves
  that output file staged.
\<close>

theorem cleanup_immediate_counterexample:
  "status (fst (upload_file env_no_key (req_pdf 1024) Map.empty)) = 200
   \<and> input_path_of env_no_key (req_pdf 1024) = ''/app/uploads/j1_a.pdf''
   \<and> fst (snd (upload_file env_no_key (req_pdf 1024) Map.empty)) ''/app/uploads/j1_a.pdf''
       = Some 1024
   \<and> status (fst (upload_file
        (env_no_key\<lparr>docker := docker_ok\<lparr>container_wait := Returned 1\<rparr>\<rparr>)
        (req_pdf 1024) Map.empty)) = 500
   \<and> fst (snd (upload_file
        (env_no_key\<lparr>docker := docker_ok\<lparr>container_wait := Returned 1\<rparr>\<rparr>)
        (req_pdf 1024) Map.empty)) ''/app/output/j1_sanitized.pdf'' = Some 2048"
proof -
  have a: "status (fst (upload_file env_no_key (req_pdf 1024) Map.empty)) = 200
      \<and> fst (snd (upload_file env_no_key (req_pdf 1024) Map.empty)) ''/app/uploads/j1_a.pdf''
          = Some 1024"
    by (simp add: upload_produced[OF example_produced(2)] example_no_key example_paths)
      (simp add: req_pdf_def)
  have w: "well_formed (req_pdf 1024)" by (rule example_well_formed)
  then have v: "is_post (req_pdf 1024)" "has_file (req_pdf 1024)" "filename (req_pdf 1024) \<noteq> []"
    "allowed_file (filename (req_pdf 1024))"
    by (auto simp: well_formed_def)
  have b: "status (fst (upload_file
        (env_no_key\<lparr>docker := docker_ok\<lparr>container_wait := Returned 1\<rparr>\<rparr>)
        (req_pdf 1024) Map.empty)) = 500
   \<and> fst (snd (upload_file
        (env_no_key\<lparr>docker := docker_ok\<lparr>container_wait := Returned 1\<rparr>\<rparr>)
        (req_pdf 1024) Map.empty)) ''/app/output/j1_sanitized.pdf'' = Some 2048"
    using v
    by (simp add: upload_file_def Let_def MAX_FILE_SIZE_def sanitize_in_container_def
          sanitize_try_def run_worker_def scan_with_virustotal_def jsonify_error_def
          input_path_of_def output_path_of_def UPLOAD_FOLDER_def OUTPUT_FOLDER_def
          env_no_key_def docker_ok_def)
      (simp add: req_pdf_def)
  from a b show ?thesis by (simp add: example_paths)
qed

section \<open>Properties of the worker\<close>

text \<open>The guarded deletions never raise, and leave a page without the three entries.\<close>

lemma guarded_del:
  "\<exists>d'. (if has_key key d then del_key key d else Returned d) = Returned d'
      \<and> \<not> has_key key d' \<and> (\<forall>k. has_key k d' \<longrightarrow> has_key k d)"
  by (auto simp: del_key_def has_key_def)

lemma strip_page_returns: "\<exists>page'. strip_page page = Returned page' \<and> page_disarmed page'"
proof -
  obtain p1 where p1: "(if has_key ''/Annots'' page then del_key ''/Annots'' page
      else Returned page) = Returned p1" and a1: "\<not> has_key ''/Annots'' p1"
    using guarded_del[of "''/Annots''" page] by blast
  obtain p2 where p2: "(if has_key ''/AA'' p1 then del_key ''/AA'' p1 else Returned p1)
      = Returned p2" and a2: "\<not> has_key ''/AA'' p2"
    and k2: "\<forall>k. has_key k p2 \<longrightarrow> has_key k p1"
    using guarded_del[of "''/AA''" p1] by blast
  obtain p3 where p3: "(if has_key ''/A'' p2 then del_key ''/A'' p2 else Returned p2)
      = Returned p3" and a3: "\<not> has_key ''/A'' p3"
    and k3: "\<forall>k. has_key k p3 \<longrightarrow> has_key k p2"
    using guarded_del[of "''/A''" p2] by blast
  have "strip_page page = Returned p3"
    using p1 p2 p3 by (simp add: strip_page_def and_then_def)
  moreover have "page_disarmed p3"
    using a1 a2 a3 k2 k3 by (auto simp: page_disarmed_def)
  ultimately show ?thesis by blast
qed

lemma strip_page_noop: "page_disarmed page \<Longrightarrow> strip_page page = Returned page"
  by (simp add: page_disarmed_def strip_page_def and_then_def)

lemma copy_pages_returns:
  "list_all page_disarmed (pages writer) \<Longrightarrow>
   \<exists>writer'. copy_pages ps writer = Returned writer'
      \<and> list_all page_disarmed (pages writer')
      \<and> length (pages writer') = length (pages writer) + length ps
      \<and> root_object writer' = root_object writer \<and> info_object writer' = info_object writer"
proof (induction ps arbitrary: writer)
  case Nil
  then show ?case by simp
next
  case (Cons page ps)
  obtain page' where s: "strip_page page = Returned page'" and d: "page_disarmed page'"
    using strip_page_returns by blast
  have "list_all page_disarmed (pages (writer\<lparr>pages := pages writer @ [page']\<rparr>))"
    using Cons.prems d by simp
  from Cons.IH[OF this] show ?case
    using s by (auto simp: and_then_def)
qed

lemma copy_pages_noop:
  "list_all page_disarmed ps \<Longrightarrow>
   copy_pages ps writer = Returned (writer\<lparr>pages := pages writer @ ps\<rparr>)"
  by (induction ps arbitrary: writer) (auto simp: and_then_def strip_page_noop)

lemma new_root_disarmed:
  "remove_from_names key new_root = Returned new_root"
  "\<not> has_key ''/OpenAction'' new_root"
  "in_names key new_root = Returned False"
  by (simp_all add: remove_from_names_def in_names_def new_root_def has_key_def)

lemma disarm_tree_returns:
  "\<exists>writer. disarm_tree clock reader = Returned writer \<and> disarmed writer
      \<and> length (pages writer) = length (pages reader)"
proof -
  have "list_all page_disarmed (pages PdfWriter)" by (simp add: PdfWriter_def)
  from copy_pages_returns[OF this, of "pages reader"]
  obtain w where w: "copy_pages (pages reader) PdfWriter = Returned w"
    "list_all page_disarmed (pages w)" "length (pages w) = length (pages reader)"
    "root_object w = new_root"
    by (auto simp: PdfWriter_def)
  then show ?thesis
    by (simp add: disarm_tree_def and_then_def new_root_disarmed disarmed_def
          catalog_disarmed_def)
qed

text \<open>
  C5. Whenever \<open>disarm_pdf\<close> succeeds (it returns \<open>True\<close>), the file it has written is a tree
  in which no page has an \<open>/Annots\<close>, \<open>/AA\<close> or \<open>/A\<close> entry and whose catalog has no
  \<open>/Names/JavaScript\<close>, no \<open>/Names/EmbeddedFiles\<close> and no \<open>/OpenAction\<close>. It succeeds on
  every file that PyPDF2 reads, whichever of these entries are absent from it, and a page
  that has none of the three entries is copied as it is.
\<close>

theorem disarm_pdf_removes:
  "(disarm_pdf clock pdf_path output_path fs = Returned (True, fs') \<longrightarrow>
      (\<exists>d. fs' output_path = Some (PdfDoc d) \<and> disarmed d))
   \<and> (PdfReader fs pdf_path = Returned reader \<longrightarrow>
      (\<exists>d. disarm_pdf clock pdf_path output_path fs
              = Returned (True, fs(output_path \<mapsto> PdfDoc d))
           \<and> disarmed d
           \<and> (list_all page_disarmed (pages reader) \<longrightarrow> pages d = pages reader)))"
proof -
  have a: "\<exists>d. fs' output_path = Some (PdfDoc d) \<and> disarmed d"
    if "disarm_pdf clock pdf_path output_path fs = Returned (True, fs')"
  proof (cases "PdfReader fs pdf_path")
    case (Raised e)
    with that show ?thesis
      by (auto simp: disarm_pdf_def and_then_def split: outcome.splits)
  next
    case (Returned r)
    obtain w where "disarm_tree clock r = Returned w" "disarmed w"
      using disarm_tree_returns by blast
    with that Returned show ?thesis
      by (auto simp: disarm_pdf_def and_then_def)
  qed
  have b: "\<exists>d. disarm_pdf clock pdf_path output_path fs
              = Returned (True, fs(output_path \<mapsto> PdfDoc d))
           \<and> disarmed d
           \<and> (list_all page_disarmed (pages reader) \<longrightarrow> pages d = pages reader)"
    if r: "PdfReader fs pdf_path = Returned reader"
  proof -
    obtain w where w: "disarm_tree clock reader = Returned w" "disarmed w"
      using disarm_tree_returns by blast
    have "pages w = pages reader" if "list_all page_disarmed (pages reader)"
      using w(1) copy_pages_noop[OF that, of PdfWriter]
      by (auto simp: disarm_tree_def and_then_def new_root_disarmed PdfWriter_def
               split: if_splits)
    with w r show ?thesis
      by (auto simp: disarm_pdf_def and_then_def)
  qed
  from a b show ?thesis by blast
qed

theorem disarm_pdf_removes_witness:
  "PdfReader [''/tmp/in.pdf'' \<mapsto> PdfDoc active_pdf] ''/tmp/in.pdf'' = Returned active_pdf
   \<and> disarm_pdf ''D:20240101000000'' ''/tmp/in.pdf'' ''/tmp/out.pdf''
        [''/tmp/in.pdf'' \<mapsto> PdfDoc active_pdf]
      = Returned (True, [''/tmp/in.pdf'' \<mapsto> PdfDoc active_pdf,
                         ''/tmp/out.pdf'' \<mapsto> PdfDoc active_pdf_disarmed])
   \<and> disarmed active_pdf_disarmed"
proof -
  have r: "PdfReader [''/tmp/in.pdf'' \<mapsto> PdfDoc active_pdf] ''/tmp/in.pdf''
      = Returned active_pdf"
    by (simp add: PdfReader_def)
  have e: "disarm_pdf ''D:20240101000000'' ''/tmp/in.pdf'' ''/tmp/out.pdf''
        [''/tmp/in.pdf'' \<mapsto> PdfDoc active_pdf]
      = Returned (True, [''/tmp/in.pdf'' \<mapsto> PdfDoc active_pdf,
                         ''/tmp/out.pdf'' \<mapsto> PdfDoc active_pdf_disarmed])"
    by (simp add: disarm_pdf_def PdfReader_def and_then_def disarm_tree_def active_pdf_def
          strip_page_def has_key_def del_key_def new_page_def PdfWriter_def
          remove_from_names_def new_root_def add_metadata_def set_item_def
          active_pdf_disarmed_def)
  from disarm_pdf_removes[of "''D:20240101000000''" "''/tmp/in.pdf''" "''/tmp/out.pdf''"
      "[''/tmp/in.pdf'' \<mapsto> PdfDoc active_pdf]"
      "[''/tmp/in.pdf'' \<mapsto> PdfDoc active_pdf, ''/tmp/out.pdf'' \<mapsto> PdfDoc active_pdf_disarmed]"
      active_pdf] e
  have "disarmed active_pdf_disarmed" by simp
  with r e show ?thesis by simp
qed

text \<open>Properties of the rounding to floats.\<close>

lemma pow2_of_bitlen:
  assumes "0 < a"
  shows "(2::rat) powi (bitlen a - 1) \<le> of_int a" "of_int a < (2::rat) powi bitlen a"
proof -
  from bitlen_bounds[OF assms]
  have l: "2 ^ nat (bitlen a - 1) \<le> a" and h: "a < 2 ^ nat (bitlen a)" by auto
  have ge1: "1 \<le> bitlen a" using assms by (auto simp: bitlen_alt_def)
  have "(2::rat) powi (bitlen a - 1) = 2 ^ nat (bitlen a - 1)"
    using ge1 by (simp add: power_int_def)
  also have "\<dots> = of_int (2 ^ nat (bitlen a - 1))" by simp
  also have "\<dots> \<le> of_int a" using l by (simp only: of_int_le_iff)
  finally show "(2::rat) powi (bitlen a - 1) \<le> of_int a" .
  have "(of_int a :: rat) < of_int (2 ^ nat (bitlen a))" using h by (simp only: of_int_less_iff)
  also have "\<dots> = 2 ^ nat (bitlen a)" by simp
  also have "\<dots> = (2::rat) powi bitlen a" using ge1 by (simp add: power_int_def)
  finally show "of_int a < (2::rat) powi bitlen a" .
qed

lemma expo_bounds:
  assumes "0 < q"
  shows "2 powi expo q \<le> q" and "q < 2 powi (expo q + 1)"
proof -
  obtain a b where ab: "quotient_of q = (a, b)" by (cases "quotient_of q") auto
  have b: "0 < b" using quotient_of_denom_pos[OF ab] .
  have q: "q = of_int a / of_int b" using quotient_of_div[OF ab] .
  have a: "0 < a" using assms b q by (simp add: zero_less_divide_iff)
  note A = pow2_of_bitlen[OF a] and B = pow2_of_bitlen[OF b]
  have pb: "(0::rat) < of_int b" using b by simp
  have up: "q < 2 powi (bitlen a - bitlen b + 1)"
  proof -
    have "q < 2 powi bitlen a / of_int b"
      unfolding q using A(2) pb by (simp add: divide_strict_right_mono)
    also have "\<dots> \<le> 2 powi bitlen a / 2 powi (bitlen b - 1)"
      using B(1) pb by (intro divide_left_mono) (auto intro: mult_pos_pos)
    also have "\<dots> = 2 powi (bitlen a - bitlen b + 1)"
      by (simp add: power_int_diff[symmetric] algebra_simps)
    finally show ?thesis .
  qed
  have low: "2 powi (bitlen a - bitlen b - 1) \<le> q"
  proof -
    have "(2::rat) powi (bitlen a - bitlen b - 1) = 2 powi (bitlen a - 1) / 2 powi bitlen b"
      by (simp add: power_int_diff[symmetric] algebra_simps)
    also have "\<dots> \<le> of_int a / 2 powi bitlen b"
      using A(1) by (simp add: divide_right_mono)
    also have "\<dots> \<le> of_int a / of_int b"
      using B(2) a pb by (intro divide_left_mono) (auto intro: mult_pos_pos)
    finally show ?thesis unfolding q .
  qed
  show "2 powi expo q \<le> q"
    using low by (simp add: expo_def ab Let_def)
  show "q < 2 powi (expo q + 1)"
    using up by (auto simp: expo_def ab Let_def not_le)
qed

lemma expo_mono:
  assumes "0 < p" and "p \<le> q"
  shows "expo p \<le> expo q"
proof -
  have "(2::rat) powi expo p \<le> p" using expo_bounds(1)[OF assms(1)] .
  also have "\<dots> \<le> q" by fact
  also have "\<dots> < 2 powi (expo q + 1)" using expo_bounds(2)[of q] assms by simp
  finally have lt: "(2::rat) powi expo p < 2 powi (expo q + 1)" .
  have "expo p < expo q + 1"
  proof (rule ccontr)
    assume "\<not> expo p < expo q + 1"
    then have "(2::rat) powi (expo q + 1) \<le> 2 powi expo p"
      by (intro power_int_increasing) auto
    with lt show False by simp
  qed
  then show ?thesis by simp
qed

lemma round_even_of_int [simp]: "round_even (of_int k) = k"
  by (simp add: round_even_def)

lemma round_even_range: "\<lfloor>t\<rfloor> \<le> round_even t \<and> round_even t \<le> \<lfloor>t\<rfloor> + 1"
  by (simp add: round_even_def Let_def)

lemma round_even_error: "\<bar>of_int (round_even t) - t\<bar> \<le> 1 / 2"
proof -
  have "of_int \<lfloor>t\<rfloor> \<le> t" "t < of_int \<lfloor>t\<rfloor> + 1" by linarith+
  then show ?thesis by (auto simp: round_even_def Let_def)
qed

lemma round_even_mono:
  assumes "s \<le> t"
  shows "round_even s \<le> round_even t"
proof (cases "\<lfloor>s\<rfloor> = \<lfloor>t\<rfloor>")
  case True
  then show ?thesis using assms by (auto simp: round_even_def Let_def)
next
  case False
  then have "\<lfloor>s\<rfloor> + 1 \<le> \<lfloor>t\<rfloor>" using floor_mono[OF assms] by simp
  then show ?thesis using round_even_range[of s] round_even_range[of t] by linarith
qed

lemma py_float_pos:
  assumes "0 < q"
  shows "py_float q = of_int (round_even (q / 2 powi (expo q - 52))) * 2 powi (expo q - 52)"
  using assms by (simp add: py_float_def Let_def)

lemma scaled_range:
  assumes "0 < q"
  shows "2 ^ 52 \<le> q / 2 powi (expo q - 52)" and "q / 2 powi (expo q - 52) \<le> 2 ^ 53"
proof -
  have u: "(0::rat) < 2 powi (expo q - 52)" by simp
  have e: "(2::rat) powi expo q = 2 ^ 52 * 2 powi (expo q - 52)"
    by (simp add: power_int_diff)
  have e1: "(2::rat) powi (expo q + 1) = 2 ^ 53 * 2 powi (expo q - 52)"
    by (simp add: power_int_diff power_int_add)
  show "2 ^ 52 \<le> q / 2 powi (expo q - 52)"
    using expo_bounds(1)[OF assms] u unfolding e by (simp add: pos_le_divide_eq)
  show "q / 2 powi (expo q - 52) \<le> 2 ^ 53"
    using expo_bounds(2)[OF assms] u unfolding e1 by (simp add: pos_divide_le_eq)
qed

lemma py_float_binade:
  assumes "0 < q"
  shows "2 powi expo q \<le> py_float q" and "py_float q \<le> 2 powi (expo q + 1)"
proof -
  let ?u = "(2::rat) powi (expo q - 52)"
  have u: "0 < ?u" by simp
  have "round_even (of_int (2 ^ 52)) \<le> round_even (q / ?u)"
    using scaled_range(1)[OF assms] by (intro round_even_mono) simp
  then have lo: "(2::rat) ^ 52 \<le> of_int (round_even (q / ?u))"
    by (simp only: round_even_of_int) (metis of_int_le_iff of_int_numeral of_int_power)
  have "round_even (q / ?u) \<le> round_even (of_int (2 ^ 53))"
    using scaled_range(2)[OF assms] by (intro round_even_mono) simp
  then have hi: "of_int (round_even (q / ?u)) \<le> (2::rat) ^ 53"
    by (simp only: round_even_of_int) (metis of_int_le_iff of_int_numeral of_int_power)
  have e: "(2::rat) powi expo q = 2 ^ 52 * ?u"
    by (simp add: power_int_diff)
  have e1: "(2::rat) powi (expo q + 1) = 2 ^ 53 * ?u"
    by (simp add: power_int_diff power_int_add)
  show "2 powi expo q \<le> py_float q"
    unfolding e py_float_pos[OF assms] using lo u by (intro mult_right_mono) auto
  show "py_float q \<le> 2 powi (expo q + 1)"
    unfolding e1 py_float_pos[OF assms] using hi u by (intro mult_right_mono) auto
qed

lemma py_float_nonneg: "0 \<le> q \<Longrightarrow> 0 \<le> py_float q"
proof (cases "q = 0")
  case True
  then show ?thesis by (simp add: py_float_def)
next
  case False
  assume "0 \<le> q"
  with False have q: "0 < q" by simp
  have "(0::rat) \<le> 2 powi expo q" by simp
  with py_float_binade(1)[OF q] show ?thesis by linarith
qed

lemma py_float_mono:
  assumes "0 \<le> p" and "p \<le> q"
  shows "py_float p \<le> py_float q"
proof (cases "p = 0")
  case True
  then show ?thesis using py_float_nonneg[of q] assms by (simp add: py_float_def)
next
  case False
  with assms have p: "0 < p" and q: "0 < q" by auto
  show ?thesis
  proof (cases "expo p = expo q")
    case True
    have "round_even (p / 2 powi (expo q - 52)) \<le> round_even (q / 2 powi (expo q - 52))"
      using assms(2) by (intro round_even_mono) (simp add: divide_right_mono)
    then have "(of_int (round_even (p / 2 powi (expo q - 52))) :: rat)
        \<le> of_int (round_even (q / 2 powi (expo q - 52)))"
      by (simp only: of_int_le_iff)
    then show ?thesis
      unfolding py_float_pos[OF p] py_float_pos[OF q] True
      by (intro mult_right_mono) auto
  next
    case False
    with expo_mono[OF p assms(2)] have "expo p + 1 \<le> expo q" by simp
    then have "(2::rat) powi (expo p + 1) \<le> 2 powi expo q"
      by (intro power_int_increasing) auto
    with py_float_binade(2)[OF p] py_float_binade(1)[OF q] show ?thesis by linarith
  qed
qed

lemma py_float_error:
  assumes "0 \<le> q"
  shows "\<bar>py_float q - q\<bar> \<le> q / 2 ^ 53"
proof (cases "q = 0")
  case True
  then show ?thesis by (simp add: py_float_def)
next
  case False
  with assms have q: "0 < q" by simp
  let ?u = "(2::rat) powi (expo q - 52)"
  have u: "0 < ?u" by simp
  have "py_float q - q = (of_int (round_even (q / ?u)) - q / ?u) * ?u"
    unfolding py_float_pos[OF q] using u by (simp add: algebra_simps)
  then have "\<bar>py_float q - q\<bar> = \<bar>of_int (round_even (q / ?u)) - q / ?u\<bar> * ?u"
    using u by (simp add: abs_mult)
  also have "\<dots> \<le> 1 / 2 * ?u"
    using round_even_error[of "q / ?u"] u by (intro mult_right_mono) auto
  also have "\<dots> = 2 powi expo q / 2 ^ 53"
    by (simp add: power_int_diff)
  also have "\<dots> \<le> q / 2 ^ 53"
    using expo_bounds(1)[OF q] by (simp add: divide_right_mono)
  finally show ?thesis .
qed

lemma py_float_of_nat:
  assumes "n < 2 ^ 53"
  shows "py_float (of_nat n) = of_nat n"
proof (cases "n = 0")
  case True
  then show ?thesis by (simp add: py_float_def)
next
  case False
  let ?q = "of_nat n :: rat"
  have q: "0 < ?q" using False by simp
  have "(2::rat) powi expo ?q \<le> ?q" using expo_bounds(1)[OF q] .
  also have "?q < 2 ^ 53" using assms
    by (metis of_nat_less_iff of_nat_numeral of_nat_power)
  also have "(2::rat) ^ 53 = 2 powi 53" by simp
  finally have "(2::rat) powi expo ?q < 2 powi 53" .
  have le: "expo ?q \<le> 52"
  proof (rule ccontr)
    assume "\<not> expo ?q \<le> 52"
    then have "(2::rat) powi 53 \<le> 2 powi expo ?q" by (intro power_int_increasing) auto
    with \<open>(2::rat) powi expo ?q < 2 powi 53\<close> show False by simp
  qed
  define k where "k = nat (52 - expo ?q)"
  have u: "(2::rat) powi (expo ?q - 52) = 1 / 2 ^ k"
    using le by (simp add: k_def power_int_def field_simps)
  have "?q / (2 powi (expo ?q - 52)) = of_int (int n * 2 ^ k)"
    unfolding u by simp
  then have "round_even (?q / (2 powi (expo ?q - 52))) = int n * 2 ^ k"
    by (simp only: round_even_of_int)
  then show ?thesis
    unfolding py_float_pos[OF q] by (simp add: u)
qed

lemma py_float_numeral [simp]:
  "py_float 20 = 20" "py_float 40 = 40" "py_float 572 = 572" "py_float 752 = 752"
  "py_float 612 = 612" "py_float 792 = 792"
  using py_float_of_nat[of 20] py_float_of_nat[of 40] py_float_of_nat[of 572]
    py_float_of_nat[of 752] py_float_of_nat[of 612] py_float_of_nat[of 792]
  by simp_all

text \<open>Rounding keeps a non-negative number within \<open>2\<^sup>-\<^sup>5\<^sup>3\<close> of itself.\<close>

text \<open>Two or three roundings in a row stay within \<open>2\<^sup>-\<^sup>5\<^sup>1\<close>.\<close>

lemma halved_twice_rounded:
  fixes t s x :: rat
  assumes "t - t / 2 ^ 53 \<le> s" and "s \<le> t + t / 2 ^ 53"
    and "s / 2 - s / 2 / 2 ^ 53 \<le> x" and "x \<le> s / 2 + s / 2 / 2 ^ 53" and "0 \<le> t"
  shows "\<bar>2 * x - t\<bar> \<le> t / 2 ^ 51"
proof (rule abs_leI)
  show "2 * x - t \<le> t / 2 ^ 51"
    using assms by (simp add: algebra_simps add_divide_distrib diff_divide_distrib)
  show "- (2 * x - t) \<le> t / 2 ^ 51"
    using assms by (simp add: algebra_simps add_divide_distrib diff_divide_distrib)
qed

lemma height_twice_rounded:
  fixes a a0 dh0 :: rat
  assumes "a0 - a0 / 2 ^ 53 \<le> a" and "a \<le> a0 + a0 / 2 ^ 53"
    and "572 * a - 572 * a / 2 ^ 53 \<le> dh0" and "dh0 \<le> 572 * a + 572 * a / 2 ^ 53"
    and "0 \<le> a0"
  shows "\<bar>dh0 - 572 * a0\<bar> \<le> (dh0 + 572 * a0) / 2 ^ 51"
  using assms
  by (simp add: abs_le_iff algebra_simps add_divide_distrib diff_divide_distrib)

lemma width_twice_rounded:
  fixes X da :: rat
  assumes "da \<le> 752 + 752 / 2 ^ 53" and "752 - 752 / 2 ^ 53 \<le> da"
    and "X - X / 2 ^ 53 \<le> da" and "da \<le> X + X / 2 ^ 53"
  shows "\<bar>752 - X\<bar> \<le> (752 + X) / 2 ^ 51"
  using assms
  by (simp add: abs_le_iff algebra_simps add_divide_distrib diff_divide_distrib)

lemma py_float_between:
  assumes "0 \<le> q"
  shows "q - q / 2 ^ 53 \<le> py_float q" and "py_float q \<le> q + q / 2 ^ 53"
  using py_float_error[OF assms] by linarith+

lemma centered:
  assumes "d \<le> page - 40"
  shows "20 \<le> py_float (py_float (page - d) / 2)"
    and "\<bar>2 * py_float (py_float (page - d) / 2) + d - page\<bar> \<le> (page - d) / 2 ^ 51"
proof -
  let ?t = "page - d" and ?s = "py_float (page - d)"
  have t: "40 \<le> ?t" using assms by simp
  have "py_float 40 \<le> ?s" using t by (intro py_float_mono) auto
  then have s: "40 \<le> ?s" by simp
  have "py_float 20 \<le> py_float (?s / 2)" using s by (intro py_float_mono) auto
  then show "20 \<le> py_float (?s / 2)" by simp
  have t0: "0 \<le> ?t" and s0: "0 \<le> ?s / 2" using t s by auto
  have e: "2 * py_float (?s / 2) + d - page = 2 * py_float (?s / 2) - ?t" by simp
  show "\<bar>2 * py_float (?s / 2) + d - page\<bar> \<le> ?t / 2 ^ 51"
    unfolding e using py_float_between[OF t0] py_float_between[OF s0] t0
    by (rule halved_twice_rounded)
qed

lemma strip_metadata_size:
  "img_width (strip_metadata_from_image img) = img_width img"
  "img_height (strip_metadata_from_image img) = img_height img"
  by (simp_all add: strip_metadata_from_image_def Let_def)

lemma place_image_fitted:
  assumes "image_sized img"
  shows "\<exists>p. place_image img = Returned p \<and> fitted img p
           \<and> draw_image p = strip_metadata_from_image img"
proof -
  let ?w = "of_nat (img_width img) :: rat" and ?h = "of_nat (img_height img) :: rat"
  from assms have w0: "0 < img_width img" and wn: "img_width img < 2 ^ 53"
    and hn: "img_height img < 2 ^ 53"
    by (auto simp: image_sized_def)
  have w: "0 < ?w" using w0 by simp
  have h: "0 \<le> ?h" by simp
  have fw: "py_float ?w = ?w" and fh: "py_float ?h = ?h"
    using py_float_of_nat[OF wn] py_float_of_nat[OF hn] by auto
  define a0 where "a0 = ?h / ?w"
  define a where "a = py_float a0"
  have a0: "0 \<le> a0" using w h by (simp add: a0_def)
  have ha: "?h = a0 * ?w" using w by (simp add: a0_def)
  have a_nonneg: "0 \<le> a" unfolding a_def using a0 by (rule py_float_nonneg)
  note A = py_float_between[OF a0, folded a_def]
  define dh0 where "dh0 = py_float (572 * a)"
  have z: "0 \<le> 572 * a" using a_nonneg by simp
  note H = py_float_between[OF z, folded dh0_def]
  have dh0_nonneg: "0 \<le> dh0" unfolding dh0_def using z by (rule py_float_nonneg)
  show ?thesis
  proof (cases "dh0 > 752")
    case False
    let ?p = "\<lparr>draw_image = strip_metadata_from_image img,
        draw_x = py_float (py_float (612 - 572) / 2),
        draw_y = py_float (py_float (792 - dh0) / 2),
        draw_width = 572, draw_height = dh0\<rparr>"
    have place: "place_image img = Returned ?p"
      using False w0
      by (simp add: place_image_def strip_metadata_size letter_def Let_def fw fh
            a0_def[symmetric] a_def[symmetric] dh0_def[symmetric])
    have le: "dh0 \<le> 792 - 40" using False by simp
    note cy = centered[OF le]
    have cx: "py_float (py_float (612 - 572) / 2) = 20" by simp
    have "\<bar>dh0 - 572 * a0\<bar> \<le> (dh0 + 572 * a0) / 2 ^ 51"
      using A H a0 by (rule height_twice_rounded)
    then have "\<bar>dh0 - 572 * a0\<bar> * ?w \<le> (dh0 + 572 * a0) / 2 ^ 51 * ?w"
      using w by (intro mult_right_mono) auto
    moreover have "\<bar>dh0 - 572 * a0\<bar> * ?w = \<bar>dh0 * ?w - 572 * ?h\<bar>"
    proof -
      have "dh0 * ?w - 572 * ?h = (dh0 - 572 * a0) * ?w" by (simp add: ha algebra_simps)
      then have "\<bar>dh0 * ?w - 572 * ?h\<bar> = \<bar>dh0 - 572 * a0\<bar> * \<bar>?w\<bar>"
        by (simp only: abs_mult)
      then show ?thesis using w by simp
    qed
    moreover have "(dh0 + 572 * a0) / 2 ^ 51 * ?w = (dh0 * ?w + 572 * ?h) / 2 ^ 51"
      by (simp add: ha algebra_simps)
    ultimately have aspect: "\<bar>dh0 * ?w - 572 * ?h\<bar> \<le> (dh0 * ?w + 572 * ?h) / 2 ^ 51"
      by simp
    have "fitted img ?p"
      using False dh0_nonneg aspect cy cx
      by (simp add: fitted_def Let_def a0_def[symmetric] a_def[symmetric]
            dh0_def[symmetric])
    with place show ?thesis by simp
  next
    case True
    have big: "752 < 572 * a"
    proof (rule ccontr)
      assume "\<not> 752 < 572 * a"
      then have "py_float (572 * a) \<le> py_float 752" using z by (intro py_float_mono) auto
      with True show False by (simp add: dh0_def)
    qed
    then have apos: "0 < a" by simp
    with A a0 have a0pos: "0 < a0" by (cases "a0 = 0") auto
    define dw where "dw = py_float (752 / a)"
    have q: "0 \<le> 752 / a" using apos by simp
    note W = py_float_between[OF q, folded dw_def]
    have dw_nonneg: "0 \<le> dw" unfolding dw_def using q by (rule py_float_nonneg)
    have "752 / a \<le> 572" using big apos by (simp add: pos_divide_le_eq)
    then have "dw \<le> py_float 572" unfolding dw_def using q by (intro py_float_mono) auto
    then have dw_le: "dw \<le> 612 - 40" by simp
    let ?p = "\<lparr>draw_image = strip_metadata_from_image img,
        draw_x = py_float (py_float (612 - dw) / 2),
        draw_y = py_float (py_float (792 - 752) / 2),
        draw_width = dw, draw_height = 752\<rparr>"
    have place: "place_image img = Returned ?p"
      using True w0
      by (simp add: place_image_def strip_metadata_size letter_def Let_def fw fh
            a0_def[symmetric] a_def[symmetric] dh0_def[symmetric] dw_def[symmetric])
    note cx = centered[OF dw_le]
    have cy: "py_float (py_float (792 - 752) / 2) = 20" by simp
    have m1: "dw * a \<le> 752 + 752 / 2 ^ 53"
    proof -
      have "dw * a \<le> (752 / a + 752 / a / 2 ^ 53) * a"
        using W(2) apos by (intro mult_right_mono) auto
      also have "\<dots> = 752 + 752 / 2 ^ 53" using apos by (simp add: field_simps)
      finally show ?thesis .
    qed
    have m2: "752 - 752 / 2 ^ 53 \<le> dw * a"
    proof -
      have "(752 / a - 752 / a / 2 ^ 53) * a \<le> dw * a"
        using W(1) apos by (intro mult_right_mono) auto
      moreover have "(752 / a - 752 / a / 2 ^ 53) * a = 752 - 752 / 2 ^ 53"
        using apos by (simp add: field_simps)
      ultimately show ?thesis by simp
    qed
    define X where "X = dw * a0"
    have x1: "X - X / 2 ^ 53 \<le> dw * a"
    proof -
      have "dw * (a0 - a0 / 2 ^ 53) \<le> dw * a"
        using A(1) dw_nonneg by (intro mult_left_mono) auto
      then show ?thesis by (simp add: X_def algebra_simps)
    qed
    have x2: "dw * a \<le> X + X / 2 ^ 53"
    proof -
      have "dw * a \<le> dw * (a0 + a0 / 2 ^ 53)"
        using A(2) dw_nonneg by (intro mult_left_mono) auto
      then show ?thesis by (simp add: X_def algebra_simps)
    qed
    have "\<bar>752 - X\<bar> \<le> (752 + X) / 2 ^ 51"
      using m1 m2 x1 x2 by (rule width_twice_rounded)
    then have "\<bar>752 - X\<bar> * ?w \<le> (752 + X) / 2 ^ 51 * ?w"
      using w by (intro mult_right_mono) auto
    moreover have "\<bar>752 - X\<bar> * ?w = \<bar>752 * ?w - dw * ?h\<bar>"
    proof -
      have "752 * ?w - dw * ?h = (752 - X) * ?w" by (simp add: ha X_def algebra_simps)
      then have "\<bar>752 * ?w - dw * ?h\<bar> = \<bar>752 - X\<bar> * \<bar>?w\<bar>"
        by (simp only: abs_mult)
      then show ?thesis using w by simp
    qed
    moreover have "(752 + X) / 2 ^ 51 * ?w = (752 * ?w + dw * ?h) / 2 ^ 51"
      by (simp add: ha X_def algebra_simps)
    ultimately have aspect: "\<bar>752 * ?w - dw * ?h\<bar> \<le> (752 * ?w + dw * ?h) / 2 ^ 51"
      by simp
    have "fitted img ?p"
      using True dw_nonneg dw_le aspect cx cy
      by (simp add: fitted_def Let_def a0_def[symmetric] a_def[symmetric]
            dh0_def[symmetric] dw_def[symmetric])
    with place show ?thesis by simp
  qed
qed

lemma draw_pages_fitted:
  "list_all image_sized images \<Longrightarrow>
   \<exists>ps. draw_pages images = Returned ps \<and> length ps = length images
     \<and> (\<forall>i<length images. fitted (images ! i) (ps ! i)
           \<and> draw_image (ps ! i) = strip_metadata_from_image (images ! i))"
proof (induction images)
  case Nil
  then show ?case by simp
next
  case (Cons img images)
  then obtain rest where rest: "draw_pages images = Returned rest"
    "length rest = length images"
    "\<forall>i<length images. fitted (images ! i) (rest ! i)
       \<and> draw_image (rest ! i) = strip_metadata_from_image (images ! i)"
    by auto
  from Cons.prems obtain p where p: "place_image img = Returned p" "fitted img p"
    "draw_image p = strip_metadata_from_image img"
    using place_image_fitted[of img] by auto
  have "draw_pages (img # images) = Returned (p # rest)"
    using p(1) rest(1) by (simp add: and_then_def)
  moreover have "\<forall>i<length (img # images). fitted ((img # images) ! i) ((p # rest) ! i)
       \<and> draw_image ((p # rest) ! i) = strip_metadata_from_image ((img # images) ! i)"
    using p(2,3) rest(3) by (auto simp: nth_Cons split: nat.splits)
  ultimately show ?case using rest(2) by simp
qed

text \<open>
  Evaluating \<open>py_float\<close>: the exponent of a positive number is fixed by the binade it lies
  in, and away from a tie the rounded significand is the nearest integer.
\<close>

lemma expo_unique:
  assumes "0 < q" and "2 powi e \<le> q" and "q < 2 powi (e + 1)"
  shows "expo q = e"
proof (rule antisym)
  show "expo q \<le> e"
  proof (rule ccontr)
    assume "\<not> expo q \<le> e"
    then have "e + 1 \<le> expo q" by simp
    then have "(2::rat) powi (e + 1) \<le> 2 powi expo q" by (intro power_int_increasing) auto
    with expo_bounds(1)[OF assms(1)] assms(3) show False by simp
  qed
  show "e \<le> expo q"
  proof (rule ccontr)
    assume "\<not> e \<le> expo q"
    then have "expo q + 1 \<le> e" by simp
    then have "(2::rat) powi (expo q + 1) \<le> 2 powi e" by (intro power_int_increasing) auto
    with expo_bounds(2)[OF assms(1)] assms(2) show False by simp
  qed
qed

lemma round_even_nearest:
  assumes "of_int m - 1 / 2 < t" and "t < of_int m + 1 / 2"
  shows "round_even t = m"
proof -
  have f: "of_int \<lfloor>t\<rfloor> \<le> t" "t < of_int \<lfloor>t\<rfloor> + 1" by linarith+
  have "of_int (m - 1) \<le> t" using assms(1) by simp
  then have l: "m - 1 \<le> \<lfloor>t\<rfloor>" by (simp only: le_floor_iff)
  have "t < of_int (m + 1)" using assms(2) by simp
  then have h: "\<lfloor>t\<rfloor> < m + 1" by (simp only: floor_less_iff)
  from l h have "\<lfloor>t\<rfloor> = m \<or> \<lfloor>t\<rfloor> = m - 1" by linarith
  then show ?thesis using assms f by (auto simp: round_even_def Let_def)
qed

lemma py_float_nearest:
  assumes "0 < q" and "2 powi e \<le> q" and "q < 2 powi (e + 1)"
    and "of_int m - 1 / 2 < q * 2 powi (52 - e)" and "q * 2 powi (52 - e) < of_int m + 1 / 2"
  shows "py_float q = of_int m / 2 powi (52 - e)"
proof -
  have p: "(2::rat) powi (52 - e) = 1 / 2 powi (e - 52)"
    by (simp add: power_int_diff)
  then have "round_even (q / 2 powi (e - 52)) = m"
    using round_even_nearest[OF assms(4,5)] by simp
  then show ?thesis
    using py_float_pos[OF assms(1)] expo_unique[OF assms(1,2,3)] p by simp
qed


text \<open>The placements of the example images, in the doubles that Python computes.\<close>

lemma example_floats:
  "py_float 1 = 1" "py_float 4 = 4" "py_float 100 = 100" "py_float 110 = 110"
  "py_float 188 = 188" "py_float 212 = 212" "py_float 220 = 220" "py_float 400 = 400"
  "py_float 424 = 424" "py_float 1000 = 1000" "py_float 1700 = 1700"
  "py_float 2200 = 2200" "py_float 2288 = 2288"
  using py_float_of_nat[of 1] py_float_of_nat[of 4] py_float_of_nat[of 100]
    py_float_of_nat[of 110] py_float_of_nat[of 188] py_float_of_nat[of 212]
    py_float_of_nat[of 220] py_float_of_nat[of 400] py_float_of_nat[of 424]
    py_float_of_nat[of 1000] py_float_of_nat[of 1700] py_float_of_nat[of 2200]
    py_float_of_nat[of 2288]
  by simp_all

lemma letter_scan_floats:
  "py_float (22 / 17) = 5828187753067701 / 4503599627370496"
  "py_float (833430848688681243 / 1125899906842624) = 3255589252690161 / 4398046511104"
  "py_float (227663584104207 / 4398046511104) = 227663584104207 / 4398046511104"
  "py_float (227663584104207 / 8796093022208) = 227663584104207 / 8796093022208"
  using py_float_nearest[of "22 / 17" 0 5828187753067701]
    py_float_nearest[of "833430848688681243 / 1125899906842624" 9 6511178505380322]
    py_float_nearest[of "227663584104207 / 4398046511104" 5 7285234691334624]
    py_float_nearest[of "227663584104207 / 8796093022208" 4 7285234691334624]
  by simp_all

lemma example_placements:
  "place_image letter_scan
     = Returned \<lparr>draw_image = \<lparr>img_width = 1700, img_height = 2200, mode = ''RGB''\<rparr>,
                 draw_x = 20, draw_y = 227663584104207 / 8796093022208,
                 draw_width = 572, draw_height = 3255589252690161 / 4398046511104\<rparr>"
  "place_image tall_image
     = Returned \<lparr>draw_image = \<lparr>img_width = 100, img_height = 400, mode = ''RGB''\<rparr>,
                 draw_x = 212, draw_y = 20, draw_width = 188, draw_height = 752\<rparr>"
  "place_image square_image
     = Returned \<lparr>draw_image = square_image, draw_x = 20, draw_y = 110,
                 draw_width = 572, draw_height = 572\<rparr>"
proof -
  have a: "(2200::rat) / 1700 = 22 / 17" by simp
  show "place_image letter_scan
     = Returned \<lparr>draw_image = \<lparr>img_width = 1700, img_height = 2200, mode = ''RGB''\<rparr>,
                 draw_x = 20, draw_y = 227663584104207 / 8796093022208,
                 draw_width = 572, draw_height = 3255589252690161 / 4398046511104\<rparr>"
    unfolding place_image_def letter_scan_def strip_metadata_from_image_def letter_def
    by (simp add: Let_def example_floats letter_scan_floats)
  show "place_image tall_image
     = Returned \<lparr>draw_image = \<lparr>img_width = 100, img_height = 400, mode = ''RGB''\<rparr>,
                 draw_x = 212, draw_y = 20, draw_width = 188, draw_height = 752\<rparr>"
    unfolding place_image_def tall_image_def strip_metadata_from_image_def letter_def
    by (simp add: Let_def example_floats)
  show "place_image square_image
     = Returned \<lparr>draw_image = square_image, draw_x = 20, draw_y = 110,
                 draw_width = 572, draw_height = 572\<rparr>"
    unfolding place_image_def square_image_def strip_metadata_from_image_def letter_def
    by (simp add: Let_def example_floats)
qed

text \<open>
  C6 as amended. For a CDR'd tree and a rasteriser that renders one image per page,
  \<open>pdf_to_pixels\<close> returns exactly what the rasteriser renders from the file at 200 DPI,
  one image for every page (and \<open>None\<close> when the rasteriser raises). For images with sizes
  that PIL can hold, \<open>pixels_to_pdf\<close> succeeds and writes a canvas of letter pages with one
  page per image, in order, each holding that one image (stripped of metadata) placed as
  \<open>fitted\<close> says: scaled to the available width, 572 points, unless its height would then
  exceed the available height, 752 points, in which case it is scaled to that height;
  with the aspect ratio of the image up to the rounding of the floats; centered; and at
  least 20 points from every edge of the page.
\<close>

theorem pixel_reconstruction:
  "(wfs pdf_path = Some (PdfDoc d) \<and> one_image_per_page wenv \<longrightarrow>
      (case convert_from_path wenv (PdfDoc d) 200 of
         Raised e \<Rightarrow> pdf_to_pixels wenv pdf_path wfs = None
       | Returned images \<Rightarrow>
           pdf_to_pixels wenv pdf_path wfs = Some images
           \<and> length images = length (pages d)))
   \<and> (list_all image_sized images \<longrightarrow>
      (\<exists>ps. pixels_to_pdf images output_path fs
               = (True, fs(output_path \<mapsto> CanvasPdf ps))
         \<and> length ps = length images
         \<and> (\<forall>i<length images. fitted (images ! i) (ps ! i)
               \<and> draw_image (ps ! i) = strip_metadata_from_image (images ! i))))"
proof -
  have a: "case convert_from_path wenv (PdfDoc d) 200 of
         Raised e \<Rightarrow> pdf_to_pixels wenv pdf_path wfs = None
       | Returned images \<Rightarrow>
           pdf_to_pixels wenv pdf_path wfs = Some images
           \<and> length images = length (pages d)"
    if "wfs pdf_path = Some (PdfDoc d)" and "one_image_per_page wenv"
    using that
    by (auto simp: pdf_to_pixels_def one_image_per_page_def split: outcome.splits)
  have b: "\<exists>ps. pixels_to_pdf images output_path fs
               = (True, fs(output_path \<mapsto> CanvasPdf ps))
         \<and> length ps = length images
         \<and> (\<forall>i<length images. fitted (images ! i) (ps ! i)
               \<and> draw_image (ps ! i) = strip_metadata_from_image (images ! i))"
    if "list_all image_sized images"
  proof -
    from draw_pages_fitted[OF that] obtain ps where "draw_pages images = Returned ps"
      "length ps = length images"
      "\<forall>i<length images. fitted (images ! i) (ps ! i)
         \<and> draw_image (ps ! i) = strip_metadata_from_image (images ! i)"
      by blast
    then show ?thesis by (intro exI[of _ ps]) (simp add: pixels_to_pdf_def)
  qed
  from a b show ?thesis by blast
qed

theorem pixel_reconstruction_witness:
  "pdf_to_pixels one_per_page ''/tmp/cleansheet_work/cdr.pdf''
       [''/tmp/cleansheet_work/cdr.pdf'' \<mapsto> PdfDoc active_pdf]
     = Some [\<lparr>img_width = 1700, img_height = 2200, mode = ''RGB''\<rparr>,
             \<lparr>img_width = 1700, img_height = 2200, mode = ''RGB''\<rparr>]
   \<and> length (pages active_pdf) = 2
   \<and> pixels_to_pdf [letter_scan, tall_image] ''/worker/output/j1_sanitized.pdf'' Map.empty
     = (True, [''/worker/output/j1_sanitized.pdf'' \<mapsto> CanvasPdf
         [\<lparr>draw_image = \<lparr>img_width = 1700, img_height = 2200, mode = ''RGB''\<rparr>,
           draw_x = 20, draw_y = 227663584104207 / 8796093022208,
           draw_width = 572, draw_height = 3255589252690161 / 4398046511104\<rparr>,
          \<lparr>draw_image = \<lparr>img_width = 100, img_height = 400, mode = ''RGB''\<rparr>,
           draw_x = 212, draw_y = 20, draw_width = 188, draw_height = 752\<rparr>]])
   \<and> fitted letter_scan
        \<lparr>draw_image = \<lparr>img_width = 1700, img_height = 2200, mode = ''RGB''\<rparr>,
          draw_x = 20, draw_y = 227663584104207 / 8796093022208,
          draw_width = 572, draw_height = 3255589252690161 / 4398046511104\<rparr>
   \<and> fitted tall_image
        \<lparr>draw_image = \<lparr>img_width = 100, img_height = 400, mode = ''RGB''\<rparr>,
          draw_x = 212, draw_y = 20, draw_width = 188, draw_height = 752\<rparr>"
proof -
  let ?cdr = "''/tmp/cleansheet_work/cdr.pdf''"
  let ?out = "''/worker/output/j1_sanitized.pdf''"
  let ?p0 = "\<lparr>draw_image = \<lparr>img_width = 1700, img_height = 2200, mode = ''RGB''\<rparr>,
           draw_x = 20, draw_y = 227663584104207 / 8796093022208,
           draw_width = 572, draw_height = 3255589252690161 / 4398046511104\<rparr>"
  let ?p1 = "\<lparr>draw_image = \<lparr>img_width = 100, img_height = 400, mode = ''RGB''\<rparr>,
           draw_x = 212, draw_y = 20, draw_width = 188, draw_height = 752\<rparr>"
  note t = pixel_reconstruction[where wfs = "[?cdr \<mapsto> PdfDoc active_pdf]"
      and pdf_path = ?cdr and d = active_pdf and wenv = one_per_page
      and images = "[letter_scan, tall_image]" and output_path = ?out and fs = Map.empty]
  have o: "one_image_per_page one_per_page"
    by (auto simp: one_image_per_page_def one_per_page_def num_pages_def)
  have n: "length (pages active_pdf) = 2" by (simp add: active_pdf_def)
  have c: "convert_from_path one_per_page (PdfDoc active_pdf) 200
      = Returned [\<lparr>img_width = 1700, img_height = 2200, mode = ''RGB''\<rparr>,
                  \<lparr>img_width = 1700, img_height = 2200, mode = ''RGB''\<rparr>]"
    using n by (simp add: one_per_page_def num_pages_def numeral_2_eq_2)
  from t[THEN conjunct1] o c
  have raster: "pdf_to_pixels one_per_page ?cdr [?cdr \<mapsto> PdfDoc active_pdf]
     = Some [\<lparr>img_width = 1700, img_height = 2200, mode = ''RGB''\<rparr>,
             \<lparr>img_width = 1700, img_height = 2200, mode = ''RGB''\<rparr>]"
    by simp
  have s: "list_all image_sized [letter_scan, tall_image]"
    by (simp add: image_sized_def letter_scan_def tall_image_def)
  from t[THEN conjunct2] s obtain ps where
    w: "pixels_to_pdf [letter_scan, tall_image] ?out Map.empty
          = (True, [?out \<mapsto> CanvasPdf ps])"
    and every: "\<forall>i<2. fitted ([letter_scan, tall_image] ! i) (ps ! i)"
    by auto
  have e: "pixels_to_pdf [letter_scan, tall_image] ?out Map.empty
      = (True, [?out \<mapsto> CanvasPdf [?p0, ?p1]])"
    by (simp add: pixels_to_pdf_def and_then_def example_placements)
  from w e have "[?out \<mapsto> CanvasPdf ps] = [?out \<mapsto> CanvasPdf [?p0, ?p1]]" by simp
  then have "CanvasPdf ps = CanvasPdf [?p0, ?p1]" by (rule map_upd_eqD1)
  then have ps: "ps = [?p0, ?p1]" by simp
  have "fitted letter_scan ?p0" and "fitted tall_image ?p1"
    using every[rule_format, of 0] every[rule_format, of 1] unfolding ps by simp_all
  with raster n e show ?thesis by simp
qed

text \<open>
  C6 as stated fails on the margin: a square image is drawn 572 points wide at \<open>x = 20\<close>, so
  it is 20 points, not 40, from the left and right edges of the page. And the ratio of the
  drawn rectangle is the ratio of the image only up to rounding: a 1700 by 2200 image is
  drawn 572 points wide and \<open>3255589252690161 / 4398046511104\<close> points high, which is not
  \<open>572 * 2200 / 1700\<close>.
\<close>

theorem margin_counterexample:
  "place_image square_image
     = Returned \<lparr>draw_image = square_image, draw_x = 20, draw_y = 110,
                 draw_width = 572, draw_height = 572\<rparr>
   \<and> \<not> (40 \<le> draw_x \<lparr>draw_image = square_image, draw_x = 20, draw_y = 110,
                        draw_width = 572, draw_height = 572\<rparr>)
   \<and> place_image letter_scan
     = Returned \<lparr>draw_image = \<lparr>img_width = 1700, img_height = 2200, mode = ''RGB''\<rparr>,
                 draw_x = 20, draw_y = 227663584104207 / 8796093022208,
                 draw_width = 572, draw_height = 3255589252690161 / 4398046511104\<rparr>
   \<and> draw_height \<lparr>draw_image = \<lparr>img_width = 1700, img_height = 2200, mode = ''RGB''\<rparr>,
                 draw_x = 20, draw_y = 227663584104207 / 8796093022208,
                 draw_width = 572, draw_height = 3255589252690161 / 4398046511104\<rparr> * 1700
       \<noteq> draw_width \<lparr>draw_image = \<lparr>img_width = 1700, img_height = 2200, mode = ''RGB''\<rparr>,
                 draw_x = 20, draw_y = 227663584104207 / 8796093022208,
                 draw_width = 572, draw_height = 3255589252690161 / 4398046511104\<rparr> * 2200"
  by (simp add: example_placements)

text \<open>
  The validator rejects every file: on a file that \<open>PdfReader\<close> reads, the first test on the
  catalog is made on the unresolved reference and raises, and the inner \<open>except\<close> returns
  \<open>False\<close>. So \<open>main\<close> never leaves the \<open>try\<close> block with status 0.
\<close>

lemma validate_output_rejects: "\<not> validate_output output_path fs"
  by (simp add: validate_output_def names_test_def trailer_get_Root_def and_then_def
        split: option.splits outcome.splits)

lemma main_try_fails: "fst (main_try wenv input_file output_file fs) \<noteq> 0"
  by (auto simp: main_try_def Let_def validate_output_rejects
        split: outcome.splits option.splits prod.splits if_splits)

lemma disarm_pdf_reads:
  assumes "PdfReader fs pdf_path = Returned reader"
  shows "\<exists>w. disarm_pdf clock pdf_path output_path fs
               = Returned (True, fs(output_path \<mapsto> PdfDoc w))
             \<and> length (pages w) = length (pages reader)"
proof -
  obtain w where "disarm_tree clock reader = Returned w"
    "length (pages w) = length (pages reader)"
    using disarm_tree_returns by blast
  then show ?thesis using assms
    by (intro exI[of _ w]) (simp add: disarm_pdf_def and_then_def)
qed

text \<open>
  C8 as amended. A PDF without pages is disarmed twice into a tree without pages; a
  rasteriser that renders one image per page then returns no image (or raises), the
  worker takes the empty list of images for a failed rendering, writes no output file and
  exits with status 1.
\<close>

theorem zero_page_pdf_rejected:
  assumes "fs input_file = Some (PdfDoc d)" and "pages d = []"
    and "input_file \<noteq> []" and "output_file \<noteq> []"
    and "CHR ''.'' \<in> set input_file" and "map lower_char (rsplit_after input_file) = ''pdf''"
    and "one_image_per_page wenv" and "fs output_file = None"
  shows "fst (main wenv (Some input_file) (Some output_file) fs) = 1
         \<and> snd (main wenv (Some input_file) (Some output_file) fs) output_file = None"
proof -
  let ?I = "temp_dir @ ''/intermediate.pdf''"
  let ?T = "?I @ ''.cdr.pdf''"
  let ?C = "temp_dir @ ''/cdr.pdf''"
  have r0: "PdfReader fs input_file = Returned d"
    using assms(1) by (simp add: PdfReader_def)
  from disarm_pdf_reads[OF r0, of "now wenv" ?T]
  obtain w1 where d1: "disarm_pdf (now wenv) input_file ?T fs
      = Returned (True, fs(?T \<mapsto> PdfDoc w1))" and p1: "pages w1 = []"
    using assms(2) by auto
  define fs1 where "fs1 = (fs(?T \<mapsto> PdfDoc w1, ?I \<mapsto> PdfDoc w1))(?T := None)"
  have conv: "convert_to_pdf wenv input_file ?I fs = Returned (True, fs1)"
    using assms(5,6) d1
    by (simp add: convert_to_pdf_def and_then_def copy_def Let_def fs1_def)
  have r1: "PdfReader fs1 ?I = Returned w1"
    by (simp add: PdfReader_def fs1_def)
  from disarm_pdf_reads[OF r1, of "now wenv" ?C]
  obtain w2 where d2: "disarm_pdf (now wenv) ?I ?C fs1
      = Returned (True, fs1(?C \<mapsto> PdfDoc w2))" and p2: "pages w2 = []"
    using p1 by auto
  define fs2 where "fs2 = fs1(?C \<mapsto> PdfDoc w2)"
  have at: "fs2 ?C = Some (PdfDoc w2)" by (simp add: fs2_def)
  have px: "pdf_to_pixels wenv ?C fs2 = None \<or> pdf_to_pixels wenv ?C fs2 = Some []"
  proof (cases "convert_from_path wenv (PdfDoc w2) 200")
    case (Raised e)
    then show ?thesis using at by (simp add: pdf_to_pixels_def)
  next
    case (Returned images)
    with assms(7) have "length images = length (pages w2)"
      unfolding one_image_per_page_def by blast
    with p2 Returned at show ?thesis by (simp add: pdf_to_pixels_def)
  qed
  have mt: "main_try wenv input_file output_file fs = (1, fs2)"
    using px d2[folded fs2_def] by (auto simp: main_try_def conv Let_def)
  have m: "main wenv (Some input_file) (Some output_file) fs = (1, rmtree temp_dir fs2)"
    using assms(1,3,4) by (simp add: main_def mt)
  have out: "rmtree temp_dir fs2 output_file = None"
  proof (cases "take (length temp_dir + 1) output_file = temp_dir @ ''/''")
    case True
    then show ?thesis by (simp add: rmtree_def)
  next
    case False
    then have "output_file \<noteq> ?I" "output_file \<noteq> ?T" "output_file \<noteq> ?C"
      by (auto simp: temp_dir_def)
    then show ?thesis using False assms(8) by (simp add: rmtree_def fs2_def fs1_def)
  qed
  from m out show ?thesis by simp
qed

lemma example_rasteriser: "one_image_per_page one_per_page"
  by (simp add: one_image_per_page_def one_per_page_def num_pages_def)

theorem zero_page_pdf_rejected_witness:
  "one_image_per_page one_per_page
   \<and> pages empty_pdf = []
   \<and> fst (main one_per_page (Some ''/worker/input/j1_a.pdf'')
        (Some ''/worker/output/j1_sanitized.pdf'')
        [''/worker/input/j1_a.pdf'' \<mapsto> PdfDoc empty_pdf]) = 1"
proof -
  have e: "pages empty_pdf = []" by (simp add: empty_pdf_def)
  have x: "map lower_char (rsplit_after ''/worker/input/j1_a.pdf'') = ''pdf''"
    by (simp add: rsplit_after_def lower_char_def)
  from zero_page_pdf_rejected[of "[''/worker/input/j1_a.pdf'' \<mapsto> PdfDoc empty_pdf]"
      "''/worker/input/j1_a.pdf''" empty_pdf "''/worker/output/j1_sanitized.pdf''" one_per_page]
    e x example_rasteriser
  show ?thesis by simp
qed

text \<open>
  C8 as stated fails: on a PDF without pages, with a rasteriser that renders one image per
  page, the worker exits with status 1 and leaves no output file.
\<close>

theorem zero_page_counterexample:
  "fst (main one_per_page (Some ''/worker/input/j1_a.pdf'')
        (Some ''/worker/output/j1_sanitized.pdf'')
        [''/worker/input/j1_a.pdf'' \<mapsto> PdfDoc empty_pdf]) = 1
   \<and> snd (main one_per_page (Some ''/worker/input/j1_a.pdf'')
        (Some ''/worker/output/j1_sanitized.pdf'')
        [''/worker/input/j1_a.pdf'' \<mapsto> PdfDoc empty_pdf])
       ''/worker/output/j1_sanitized.pdf'' = None"
  by (simp add: main_def main_try_def convert_to_pdf_def rsplit_after_def lower_char_def
        disarm_pdf_def PdfReader_def and_then_def disarm_tree_def empty_pdf_def PdfWriter_def
        remove_from_names_def new_root_def has_key_def copy_def temp_dir_def
        pdf_to_pixels_def one_per_page_def num_pages_def rmtree_def Let_def)

end
